theory Spec2Isabelle
  imports Complex_Main "HOL-Library.Multiset" "HOL-Library.Log_Nat"
begin

section \<open>Data model (types.ts)\<close>

text \<open>
  A JavaScript \<open>number\<close> is modelled as a rational: every finite double is one. The sums,
  differences and products of the journal are written exactly, each statement about them
  relating a computation to the same formula; the win rate, a quotient whose exact value
  is at stake, goes through the rounding of doubles (\<open>fl\<close> below).
  \<open>NaN\<close> never reaches a stored trade through the forms or the sheet reader, because
  every \<open>parseFloat\<close> there is followed by \<open>|| 0\<close>; where \<open>parseFloat\<close> itself is
  modelled its result is a \<open>number option\<close> with \<open>None\<close> for \<open>NaN\<close>.
  An optional field \<open>f?: T\<close> is a \<open>T option\<close>, \<open>None\<close> standing for \<open>undefined\<close>.
\<close>

type_synonym number = rat

datatype status = Open | Closed

datatype mindset = Disciplined | FOMO | Anxious | Confident | Neutral

record chartImage =
  base64 :: string
  analysis :: "string option"

record trade =
  trade_id :: string
  ticker :: string
  entryDate :: string
  entryPrice :: number
  shares :: number
  strategy :: string
  trade_notes :: string
  status :: status
  mindset :: "mindset option"
  stopLoss :: "number option"
  takeProfit :: "number option"
  exitDate :: "string option"
  exitPrice :: "number option"
  chartImage :: "chartImage option"
  pnl :: "number option"
  isWin :: "bool option"

section \<open>The ledger (App.tsx)\<close>

text \<open>\<open>Array.prototype.findIndex\<close>: the first index whose element satisfies the
  predicate, \<open>-1\<close> when there is none.\<close>

fun findIndex :: "('a \<Rightarrow> bool) \<Rightarrow> 'a list \<Rightarrow> int" where
  "findIndex p [] = - 1"
| "findIndex p (x # xs) =
     (if p x then 0
      else (let i = findIndex p xs in if i = - 1 then - 1 else i + 1))"

text \<open>The updater passed to \<open>setTrades\<close> by \<open>handleSaveTrade\<close>.\<close>

definition handleSaveTrade :: "trade \<Rightarrow> trade list \<Rightarrow> trade list" where
  "handleSaveTrade t prevTrades =
     (let index = findIndex (\<lambda>x. trade_id x = trade_id t) prevTrades
      in if index > - 1 then prevTrades[nat index := t] else t # prevTrades)"

text \<open>The updater passed to \<open>setTrades\<close> by \<open>handleDeleteTrade\<close>.\<close>

definition deleteTrade :: "string \<Rightarrow> trade list \<Rightarrow> trade list" where
  "deleteTrade tradeId prev = filter (\<lambda>t. trade_id t \<noteq> tradeId) prev"

text \<open>
  An argument of \<open>setTrades\<close>: a function of the previous state. \<open>setTrades(value)\<close> is the
  constant updater.
\<close>

type_synonym updater = "trade list \<Rightarrow> trade list"

text \<open>
  The component state that matters to the ledger. \<open>trades\<close> is the state variable as of
  the last render; \<open>queue\<close> holds the updaters passed to \<open>setTrades\<close> since then, which the
  next render applies in order; \<open>effectDue\<close> says that the \<open>[trades]\<close> effect is waiting to
  run (after the first render, and after every render that changed \<open>trades\<close>); \<open>mounted\<close>
  turns false when an effect throws, there being no error boundary around \<open>App\<close>;
  \<open>swing_trades\<close> is the text of the \<open>localStorage\<close> entry \<open>swing-trades\<close>, \<open>None\<close> while the
  key is absent.
\<close>

record app =
  trades :: "trade list"
  queue :: "updater list"
  effectDue :: bool
  mounted :: bool
  swing_trades :: "string option"

definition setTrades :: "updater \<Rightarrow> app \<Rightarrow> app" where
  "setTrades f s = s\<lparr>queue := queue s @ [f]\<rparr>"

text \<open>
  A render. Every updater of this file returns a new array, so a render with updaters
  queued changes \<open>trades\<close> and schedules the \<open>[trades]\<close> effect; a render without any
  leaves \<open>trades\<close> the same array and schedules nothing. A pending effect runs before
  the next render, so with the effect pending it is not the render's turn.
\<close>

definition render :: "app \<Rightarrow> app" where
  "render s =
     (if \<not> mounted s \<or> effectDue s \<or> queue s = [] then s
      else s\<lparr>trades := foldl (\<lambda>ts f. f ts) (trades s) (queue s), queue := [],
             effectDue := True\<rparr>)"

text \<open>
  The effect \<open>useEffect(() => localStorage.setItem('swing-trades', JSON.stringify(trades)),
  [trades])\<close>. \<open>JSON.stringify\<close> is a parameter of which nothing is assumed, in particular
  not that \<open>JSON.parse\<close> undoes it: it writes \<open>null\<close> for a number that is not finite.
  \<open>setItem\<close> either stores the text or throws
  (\<open>QuotaExceededError\<close>, which a trade carrying a chart image can bring about) and leaves
  the entry as it was: \<open>stored\<close> tells which.
\<close>

definition persist_effect :: "(trade list \<Rightarrow> string) \<Rightarrow> bool \<Rightarrow> app \<Rightarrow> app" where
  "persist_effect stringify stored s =
     (if \<not> mounted s \<or> \<not> effectDue s then s
      else if stored then s\<lparr>effectDue := False, swing_trades := Some (stringify (trades s))\<rparr>
      else s\<lparr>effectDue := False, mounted := False\<rparr>)"

text \<open>
  Mounting: the first render, with \<open>trades = []\<close>, and the first effect, which reads the
  stored entry and, when it is not empty, passes what \<open>JSON.parse\<close> makes of it to
  \<open>setTrades\<close>. \<open>JSON.parse\<close> is a parameter, \<open>None\<close> when it throws. The \<open>[trades]\<close> effect of
  this first render is pending.
\<close>

definition mount :: "(string \<Rightarrow> trade list option) \<Rightarrow> string option \<Rightarrow> app" where
  "mount parse savedTrades =
     (let s = \<lparr>trades = [], queue = [], effectDue = True, mounted = True,
                swing_trades = savedTrades\<rparr>
      in case savedTrades of
           None \<Rightarrow> s
         | Some text \<Rightarrow>
             if text = '''' then s
             else (case parse text of
                     None \<Rightarrow> s\<lparr>effectDue := False, mounted := False\<rparr>
                   | Some ts \<Rightarrow> setTrades (\<lambda>prev. ts) s))"

text \<open>Why an import can throw before or instead of returning trades.\<close>

datatype import_error = NotSignedIn | NoSpreadsheet | RequestFailed

text \<open>
  The user actions that reach \<open>setTrades\<close>. A deletion and an import carry the answer to
  \<open>window.confirm\<close>; an import carries what the awaited fetch produced (\<open>Inl\<close> when it
  threw); the broker import carries whether credentials were stored.
\<close>

datatype action =
    SaveTrade trade
  | DeleteTrade string bool
  | ImportFromSheets bool "import_error + trade list"
  | ImportFromBroker bool bool "import_error + trade list"

text \<open>The handlers \<open>handleSaveTrade\<close>, \<open>handleDeleteTrade\<close>, \<open>handleImportFromSheets\<close> and
  \<open>handleImportFromBroker\<close>: each calls \<open>setTrades\<close> at most once, writes nothing, and
  returns.\<close>

fun handler :: "action \<Rightarrow> app \<Rightarrow> app" where
  "handler (SaveTrade t) s = setTrades (handleSaveTrade t) s"
| "handler (DeleteTrade tradeId confirmed) s =
     (if confirmed then setTrades (deleteTrade tradeId) s else s)"
| "handler (ImportFromSheets confirmed fetched) s =
     (if \<not> confirmed then s
      else case fetched of
             Inl e \<Rightarrow> s
           | Inr importedTrades \<Rightarrow> setTrades (\<lambda>prev. importedTrades) s)"
| "handler (ImportFromBroker hasCreds confirmed fetched) s =
     (if \<not> hasCreds then s
      else if \<not> confirmed then s
      else case fetched of
             Inl e \<Rightarrow> s
           | Inr importedTrades \<Rightarrow> setTrades (\<lambda>prev. importedTrades) s)"

text \<open>What happens to the component, one event at a time: a handler runs to its end, the
  component renders, or the effect runs.\<close>

datatype event = Handle action | Render | Effect bool

fun step :: "(trade list \<Rightarrow> string) \<Rightarrow> app \<Rightarrow> event \<Rightarrow> app" where
  "step stringify s (Handle a) = (if mounted s then handler a s else s)"
| "step stringify s Render = render s"
| "step stringify s (Effect stored) = persist_effect stringify stored s"

definition run :: "(trade list \<Rightarrow> string) \<Rightarrow> app \<Rightarrow> event list \<Rightarrow> app" where
  "run stringify s events = foldl (step stringify) s events"

text \<open>
  The events of one operation carried to its end: the handler, the render it asked for
  and the effect of that render. \<open>startup\<close> is what follows mounting: the effect of the
  first render, the render for the stored trades, and its effect. \<open>settled\<close>: nothing is
  pending.
\<close>

definition operation :: "action \<Rightarrow> bool \<Rightarrow> event list" where
  "operation a stored = [Handle a, Render, Effect stored]"

definition startup :: "event list" where
  "startup = [Effect True, Render, Effect True]"

definition settled :: "app \<Rightarrow> bool" where
  "settled s \<longleftrightarrow> mounted s \<and> \<not> effectDue s \<and> queue s = []"

text \<open>The \<open>update\<close> operation in the words of the specification, for comparison.\<close>

datatype ledger_error = ValidationError | NotFoundError

fun replace_first :: "trade \<Rightarrow> trade list \<Rightarrow> trade list" where
  "replace_first t [] = []"
| "replace_first t (x # xs) =
     (if trade_id x = trade_id t then t # xs else x # replace_first t xs)"

definition update_spec :: "trade \<Rightarrow> trade list \<Rightarrow> ledger_error + trade list" where
  "update_spec t ts =
     (if list_ex (\<lambda>x. trade_id x = trade_id t) ts then Inr (replace_first t ts)
      else Inl NotFoundError)"

section \<open>Derived analytics (JournalView.tsx)\<close>

definition closedTrades :: "trade list \<Rightarrow> trade list" where
  "closedTrades ts = filter (\<lambda>t. status t = Closed) ts"

definition openTrades :: "trade list \<Rightarrow> trade list" where
  "openTrades ts = filter (\<lambda>t. status t = Open) ts"

text \<open>\<open>x || 0\<close> on an optional number: \<open>undefined\<close> and \<open>0\<close> both give \<open>0\<close>.\<close>

definition or_zero :: "number option \<Rightarrow> number" where
  "or_zero v = (case v of None \<Rightarrow> 0 | Some x \<Rightarrow> x)"

definition totalPnl :: "trade list \<Rightarrow> number" where
  "totalPnl ts = foldl (\<lambda>acc trade. acc + or_zero (pnl trade)) 0 (closedTrades ts)"

text \<open>\<open>closedTrades.filter(t => t.isWin).length\<close>: an absent flag is falsy.\<close>

definition winningTrades :: "trade list \<Rightarrow> nat" where
  "winningTrades ts = length (filter (\<lambda>t. isWin t = Some True) (closedTrades ts))"

definition losingTrades :: "trade list \<Rightarrow> nat" where
  "losingTrades ts = length (closedTrades ts) - winningTrades ts"

text \<open>
  Arithmetic on doubles (IEEE 754 binary64): the exact result rounded to the nearest
  number with a 53-bit significand, a tie going to the even significand. \<open>binade x\<close> is
  the exponent \<open>e\<close> with \<open>2 ^ e \<le> |x| < 2 ^ (e + 1)\<close>, so the doubles around \<open>x\<close> are the
  multiples of \<open>2 ^ (e - 52)\<close>. The range of the exponent is left out: a win rate lies
  between 0 and 100, and a quotient of two counts is no smaller than one over the count.
\<close>

definition roundEven :: "rat \<Rightarrow> int" where
  "roundEven y =
     (let f = \<lfloor>y\<rfloor>; r = y - of_int f
      in if r < 1 / 2 then f else if 1 / 2 < r then f + 1 else if even f then f else f + 1)"

definition binade :: "rat \<Rightarrow> int" where
  "binade x =
     (let (p, q) = quotient_of \<bar>x\<bar>; d = bitlen p - bitlen q
      in if 2 powi d \<le> \<bar>x\<bar> then d else d - 1)"

definition fl :: "rat \<Rightarrow> rat" where
  "fl x =
     (if x = 0 then 0
      else (let u = 2 powi (binade x - 52) in of_int (roundEven (x / u)) * u))"

text \<open>\<open>(winningTrades / closedTrades.length) * 100\<close>: the two counts are integers, exact
  as doubles; the quotient is rounded, and so is its product with 100.\<close>

definition winRate :: "trade list \<Rightarrow> number" where
  "winRate ts =
     (if length (closedTrades ts) > 0
      then fl (fl (of_nat (winningTrades ts) / of_nat (length (closedTrades ts))) * 100)
      else 0)"





text \<open>Decimal rendering of a non-negative integer, as a template string writes it.\<close>

fun show_nat :: "nat \<Rightarrow> string" where
  "show_nat n =
     (if n < 10 then [char_of (48 + n)]
      else show_nat (n div 10) @ [char_of (48 + n mod 10)])"

declare show_nat.simps [simp del]












section \<open>The trade form (TradeModal.tsx)\<close>

text \<open>
  The draft held by the modal, an \<open>Omit<Trade, 'id' | 'status'>\<close>. Opening the modal
  gives every field of the draft a value, so none is optional here; \<open>pnl\<close> and \<open>isWin\<close> are
  never part of a draft.
\<close>

record tradeForm =
  f_ticker :: string
  f_entryDate :: string
  f_entryPrice :: number
  f_shares :: number
  f_strategy :: string
  f_notes :: string
  f_mindset :: mindset
  f_stopLoss :: number
  f_takeProfit :: number
  f_exitDate :: string
  f_exitPrice :: number

definition emptyTrade :: tradeForm where
  "emptyTrade =
     \<lparr>f_ticker = '''', f_entryDate = '''', f_entryPrice = 0, f_shares = 0, f_strategy = '''',
      f_notes = '''', f_mindset = Neutral, f_stopLoss = 0, f_takeProfit = 0,
      f_exitDate = '''', f_exitPrice = 0\<rparr>"

text \<open>The state of the modal that reaches the saved trade: the draft, the chart image
  and its analysis text.\<close>

record modal =
  form :: tradeForm
  imageBase64 :: "string option"
  m_analysis :: string

text \<open>\<open>s || ''\<close> on an optional string.\<close>

definition or_empty :: "string option \<Rightarrow> string" where
  "or_empty v = (case v of None \<Rightarrow> '''' | Some s \<Rightarrow> s)"

text \<open>
  The effect that runs when the modal opens. For an edit, \<open>id\<close>, \<open>status\<close>, \<open>pnl\<close> and
  \<open>isWin\<close> are split off and the rest prefills the draft; for a new trade the draft is
  empty except for today's date.
\<close>

definition openModal :: "trade option \<Rightarrow> string \<Rightarrow> modal" where
  "openModal tradeToEdit today =
     (case tradeToEdit of
        Some editableTrade \<Rightarrow>
          \<lparr>form =
             \<lparr>f_ticker = ticker editableTrade,
              f_entryDate = entryDate editableTrade,
              f_entryPrice = entryPrice editableTrade,
              f_shares = shares editableTrade,
              f_strategy = strategy editableTrade,
              f_notes = trade_notes editableTrade,
              f_mindset = (case mindset editableTrade of None \<Rightarrow> Neutral | Some m \<Rightarrow> m),
              f_stopLoss = or_zero (stopLoss editableTrade),
              f_takeProfit = or_zero (takeProfit editableTrade),
              f_exitDate = or_empty (exitDate editableTrade),
              f_exitPrice = or_zero (exitPrice editableTrade)\<rparr>,
           imageBase64 = map_option base64 (chartImage editableTrade),
           m_analysis =
             (case chartImage editableTrade of
                None \<Rightarrow> ''''
              | Some c \<Rightarrow> or_empty (analysis c))\<rparr>
      | None \<Rightarrow>
          \<lparr>form = emptyTrade\<lparr>f_entryDate := today\<rparr>, imageBase64 = None, m_analysis = ''''\<rparr>)"

text \<open>
  \<open>handleChange\<close> on the inputs of the form. A text input stores its value; a numeric
  input stores \<open>parseFloat(value) || 0\<close>, the argument here being what \<open>parseFloat\<close>
  returned (\<open>None\<close> for \<open>NaN\<close>); the select stores the chosen mindset.
\<close>

datatype text_field = TickerField | EntryDateField | StrategyField | NotesField | ExitDateField

datatype numeric_field =
  EntryPriceField | ExitPriceField | SharesField | StopLossField | TakeProfitField

datatype change =
    TextInput text_field string
  | NumericInput numeric_field "number option"
  | MindsetInput mindset

fun handleChange :: "change \<Rightarrow> modal \<Rightarrow> modal" where
  "handleChange (TextInput TickerField v) m = m\<lparr>form := (form m)\<lparr>f_ticker := v\<rparr>\<rparr>"
| "handleChange (TextInput EntryDateField v) m = m\<lparr>form := (form m)\<lparr>f_entryDate := v\<rparr>\<rparr>"
| "handleChange (TextInput StrategyField v) m = m\<lparr>form := (form m)\<lparr>f_strategy := v\<rparr>\<rparr>"
| "handleChange (TextInput NotesField v) m = m\<lparr>form := (form m)\<lparr>f_notes := v\<rparr>\<rparr>"
| "handleChange (TextInput ExitDateField v) m = m\<lparr>form := (form m)\<lparr>f_exitDate := v\<rparr>\<rparr>"
| "handleChange (NumericInput EntryPriceField v) m =
     m\<lparr>form := (form m)\<lparr>f_entryPrice := or_zero v\<rparr>\<rparr>"
| "handleChange (NumericInput ExitPriceField v) m =
     m\<lparr>form := (form m)\<lparr>f_exitPrice := or_zero v\<rparr>\<rparr>"
| "handleChange (NumericInput SharesField v) m = m\<lparr>form := (form m)\<lparr>f_shares := or_zero v\<rparr>\<rparr>"
| "handleChange (NumericInput StopLossField v) m =
     m\<lparr>form := (form m)\<lparr>f_stopLoss := or_zero v\<rparr>\<rparr>"
| "handleChange (NumericInput TakeProfitField v) m =
     m\<lparr>form := (form m)\<lparr>f_takeProfit := or_zero v\<rparr>\<rparr>"
| "handleChange (MindsetInput v) m = m\<lparr>form := (form m)\<lparr>f_mindset := v\<rparr>\<rparr>"

text \<open>\<open>trade.exitDate && trade.exitPrice && trade.exitPrice > 0\<close>, as a truth value.\<close>

definition isClosing :: "tradeForm \<Rightarrow> bool" where
  "isClosing trade \<longleftrightarrow> f_exitDate trade \<noteq> '''' \<and> f_exitPrice trade \<noteq> 0 \<and> f_exitPrice trade > 0"

text \<open>
  \<open>handleSubmit\<close> of the trade form: the trade handed to \<open>onSave\<close>. \<open>now\<close> is
  \<open>new Date().toISOString()\<close>, the id of a new trade.
\<close>

definition handleSubmit :: "trade option \<Rightarrow> string \<Rightarrow> modal \<Rightarrow> trade" where
  "handleSubmit tradeToEdit now m =
     (let trade = form m;
          closing = isClosing trade;
          computed = (f_exitPrice trade - f_entryPrice trade) * f_shares trade
      in \<lparr>trade_id =
             (case tradeToEdit of
                None \<Rightarrow> now
              | Some t \<Rightarrow> if trade_id t \<noteq> '''' then trade_id t else now),
           ticker = f_ticker trade,
           entryDate = f_entryDate trade,
           entryPrice = f_entryPrice trade,
           shares = f_shares trade,
           strategy = f_strategy trade,
           trade_notes = f_notes trade,
           status = (if closing then Closed else Open),
           mindset = Some (f_mindset trade),
           stopLoss = Some (f_stopLoss trade),
           takeProfit = Some (f_takeProfit trade),
           exitDate = (if closing then Some (f_exitDate trade) else None),
           exitPrice = (if closing then Some (f_exitPrice trade) else None),
           chartImage =
             (case imageBase64 m of
                None \<Rightarrow> None
              | Some b \<Rightarrow>
                  if b \<noteq> '''' then Some \<lparr>base64 = b, analysis = Some (m_analysis m)\<rparr>
                  else None),
           pnl = (if closing then Some computed else None),
           isWin = (if closing then Some (computed > 0) else None)\<rparr>)"

text \<open>The user's changes to the form, applied in order.\<close>

definition applyChanges :: "change list \<Rightarrow> modal \<Rightarrow> modal" where
  "applyChanges changes m = foldl (\<lambda>m c. handleChange c m) m changes"


text \<open>An edit session of the trade form: opened on a ledger entry, changed, submitted.
  The result is the trade handed to \<open>onSave\<close>.\<close>

definition editTrade :: "trade \<Rightarrow> change list \<Rightarrow> string \<Rightarrow> string \<Rightarrow> trade" where
  "editTrade t changes today now =
     handleSubmit (Some t) now (applyChanges changes (openModal (Some t) today))"

section \<open>The exit form (ExitTradeModal.tsx)\<close>

text \<open>
  \<open>handleSubmit\<close> of the exit form. The selected trade is looked up among the open trades
  the form was given; \<open>None\<close> is the alert that ends a submission without a save.
\<close>

definition exitSubmit ::
    "trade list \<Rightarrow> string \<Rightarrow> string \<Rightarrow> number \<Rightarrow> string \<Rightarrow> trade option" where
  "exitSubmit opens selectedTradeId exitDateIn exitPriceIn notesIn =
     (case find (\<lambda>t. trade_id t = selectedTradeId) opens of
        None \<Rightarrow> None
      | Some selectedTrade \<Rightarrow>
          if exitDateIn = '''' \<or> exitPriceIn = 0 \<or> exitPriceIn \<le> 0 then None
          else
            (let computed = (exitPriceIn - entryPrice selectedTrade) * shares selectedTrade
             in Some (selectedTrade
                  \<lparr>status := Closed,
                   exitDate := Some exitDateIn,
                   exitPrice := Some exitPriceIn,
                   pnl := Some computed,
                   isWin := Some (computed > 0),
                   trade_notes :=
                     (if trade_notes selectedTrade \<noteq> ''''
                      then trade_notes selectedTrade @ [CHR 0x0A, CHR 0x0A]
                             @ ''Exit Notes: '' @ notesIn
                      else ''Exit Notes: '' @ notesIn)\<rparr>)))"

section \<open>User actions on the ledger (App.tsx wiring of the two forms)\<close>

text \<open>
  \<open>LogPosition\<close>: the trade form opened for a new trade, filled in and submitted.
  \<open>EditPosition i\<close>: the edit button of the row showing ledger entry \<open>i\<close>, then the same.
  \<open>ExitPosition\<close>: the exit form submitted with a selected id, an exit date, an exit
  price and exit notes. Each submission ends in \<open>onSave = handleSaveTrade\<close>.
\<close>

datatype user_action =
    LogPosition "change list" string string
  | EditPosition nat "change list" string string
  | ExitPosition string string number string

fun perform :: "user_action \<Rightarrow> trade list \<Rightarrow> trade list" where
  "perform (LogPosition changes today now) ts =
     handleSaveTrade (handleSubmit None now (applyChanges changes (openModal None today))) ts"
| "perform (EditPosition i changes today now) ts =
     (if i < length ts
      then handleSaveTrade (editTrade (ts ! i) changes today now) ts
      else ts)"
| "perform (ExitPosition selectedTradeId exitDateIn exitPriceIn notesIn) ts =
     (case exitSubmit (openTrades ts) selectedTradeId exitDateIn exitPriceIn notesIn of
        None \<Rightarrow> ts
      | Some updatedTrade \<Rightarrow> handleSaveTrade updatedTrade ts)"


text \<open>A closed trade as either form stores it: exit date and positive exit price
  present, \<open>pnl\<close> and \<open>isWin\<close> equal to what the closing formula gives.\<close>

definition closedByFormula :: "trade \<Rightarrow> bool" where
  "closedByFormula t \<longleftrightarrow>
     status t = Closed
     \<and> (case exitDate t of None \<Rightarrow> False | Some d \<Rightarrow> d \<noteq> '''')
     \<and> (case exitPrice t of
          None \<Rightarrow> False
        | Some p \<Rightarrow>
            0 < p
            \<and> pnl t = Some ((p - entryPrice t) * shares t)
            \<and> isWin t = Some ((p - entryPrice t) * shares t > 0))"

section \<open>Reading the spreadsheet (googleSheetsService.ts)\<close>

text \<open>
  A row of the \<open>Trades\<close> sheet is the list of its cell texts; trailing empty cells are
  absent. \<open>cell row i\<close> is \<open>row[i] || ''\<close>; \<open>numberCell parseFloat row i\<close> is
  \<open>parseFloat(row[i]) || 0\<close>, with the built-in \<open>parseFloat\<close> as a parameter that returns
  \<open>None\<close> for \<open>NaN\<close> (as it does on \<open>undefined\<close>).
\<close>

definition cell :: "string list \<Rightarrow> nat \<Rightarrow> string" where
  "cell row i = (if i < length row then row ! i else '''')"

definition numberCell :: "(string \<Rightarrow> number option) \<Rightarrow> string list \<Rightarrow> nat \<Rightarrow> number" where
  "numberCell parseFloat row i = (if i < length row then or_zero (parseFloat (row ! i)) else 0)"

datatype warning = MalformedRow nat | MissingEssentialData nat

text \<open>
  The body of the \<open>forEach\<close> for one row: the trade pushed, or the warning logged with
  the sheet's row number \<open>index + 2\<close>. \<open>now\<close> is \<open>new Date().getTime()\<close>.
\<close>

definition parseRow ::
    "(string \<Rightarrow> number option) \<Rightarrow> nat \<Rightarrow> nat \<Rightarrow> string list \<Rightarrow> warning + trade" where
  "parseRow parseFloat now index row =
     (if length row < 4 then Inl (MalformedRow (index + 2))
      else
        (let st = (if cell row 7 = ''open'' then Open else Closed);
             baseTrade =
               \<lparr>trade_id =
                  (if cell row 0 \<noteq> '''' then cell row 0
                   else ''sheet-import-'' @ show_nat now @ ''-'' @ show_nat index),
                ticker = cell row 1,
                entryDate = cell row 2,
                entryPrice = numberCell parseFloat row 3,
                shares = numberCell parseFloat row 4,
                strategy = cell row 5,
                trade_notes = cell row 6,
                status = st,
                mindset = None, stopLoss = None, takeProfit = None,
                exitDate = None, exitPrice = None, chartImage = None,
                pnl = None, isWin = None\<rparr>
         in if ticker baseTrade \<noteq> '''' \<and> entryDate baseTrade \<noteq> ''''
            then (if st = Closed
                  then Inr (baseTrade
                         \<lparr>exitDate := Some (cell row 8),
                          exitPrice := Some (numberCell parseFloat row 9),
                          pnl := Some (numberCell parseFloat row 10),
                          isWin := Some (cell row 11 = ''Win'')\<rparr>)
                  else Inr baseTrade)
            else Inl (MissingEssentialData (index + 2))))"

text \<open>The \<open>forEach\<close> over the rows: the array of trades and the console warnings.\<close>

fun forEachRow ::
    "(string \<Rightarrow> number option) \<Rightarrow> nat \<Rightarrow> nat \<Rightarrow> string list list
      \<Rightarrow> trade list \<times> warning list \<Rightarrow> trade list \<times> warning list" where
  "forEachRow parseFloat now index [] acc = acc"
| "forEachRow parseFloat now index (row # rows) (ts, ws) =
     forEachRow parseFloat now (index + 1) rows
       (case parseRow parseFloat now index row of
          Inl w \<Rightarrow> (ts, ws @ [w])
        | Inr t \<Rightarrow> (ts @ [t], ws))"

text \<open>
  \<open>fetchTradesFromSheet\<close>: the two guards that throw (the stored spreadsheet id is
  tested for truthiness, so an empty one counts as absent), the request (\<open>Inl\<close> when the
  request itself is rejected, otherwise \<open>response.result.values\<close>, which is absent for an
  empty range), and the loop.
\<close>

definition fetchTradesFromSheet ::
    "(string \<Rightarrow> number option) \<Rightarrow> nat \<Rightarrow> bool \<Rightarrow> string option
      \<Rightarrow> import_error + string list list option
      \<Rightarrow> import_error + trade list \<times> warning list" where
  "fetchTradesFromSheet parseFloat now signedIn spreadsheetId response =
     (if \<not> signedIn then Inl NotSignedIn
      else case spreadsheetId of
        None \<Rightarrow> Inl NoSpreadsheet
      | Some sid \<Rightarrow>
          if sid = '''' then Inl NoSpreadsheet
          else
            (case response of
               Inl e \<Rightarrow> Inl e
             | Inr values \<Rightarrow>
                 Inr (forEachRow parseFloat now 0
                        (case values of None \<Rightarrow> [] | Some rows \<Rightarrow> rows) ([], []))))"

text \<open>\<open>handleImportFromSheets\<close> after the confirmation: the ledger is replaced by the
  fetched trades, or left as it is when the fetch threw.\<close>

definition importFromSheets ::
    "import_error + trade list \<times> warning list \<Rightarrow> trade list \<Rightarrow> trade list" where
  "importFromSheets fetched prev =
     (case fetched of Inl e \<Rightarrow> prev | Inr (importedTrades, ws) \<Rightarrow> importedTrades)"

text \<open>Auxiliary: the trades and the warnings among the per-row results, in order, and
  the rows the loop keeps.\<close>

fun rights :: "('a + 'b) list \<Rightarrow> 'b list" where
  "rights [] = []"
| "rights (Inl a # rs) = rights rs"
| "rights (Inr b # rs) = b # rights rs"

fun lefts :: "('a + 'b) list \<Rightarrow> 'a list" where
  "lefts [] = []"
| "lefts (Inl a # rs) = a # lefts rs"
| "lefts (Inr b # rs) = lefts rs"

definition rowResults ::
    "(string \<Rightarrow> number option) \<Rightarrow> nat \<Rightarrow> nat \<Rightarrow> string list list \<Rightarrow> (warning + trade) list" where
  "rowResults parseFloat now k rows =
     map (\<lambda>(i, row). parseRow parseFloat now i row) (zip [k ..< k + length rows] rows)"

definition validRow :: "string list \<Rightarrow> bool" where
  "validRow row \<longleftrightarrow> 4 \<le> length row \<and> cell row 1 \<noteq> '''' \<and> cell row 2 \<noteq> ''''"

section \<open>CSV export (JournalView.tsx, handleDownloadCsv)\<close>

text \<open>What \<open>trade[fieldName]\<close> can be for the exported columns.\<close>

datatype js_value = Undefined | Str string | Num number | Bool bool

definition header :: "string list" where
  "header = [''id'', ''ticker'', ''status'', ''entryDate'', ''entryPrice'', ''exitDate'',
             ''exitPrice'', ''shares'', ''strategy'', ''notes'', ''pnl'', ''isWin'']"

definition optional :: "('a \<Rightarrow> js_value) \<Rightarrow> 'a option \<Rightarrow> js_value" where
  "optional wrap v = (case v of None \<Rightarrow> Undefined | Some x \<Rightarrow> wrap x)"

definition fieldValue :: "string \<Rightarrow> trade \<Rightarrow> js_value" where
  "fieldValue fieldName t =
     (if fieldName = ''id'' then Str (trade_id t)
      else if fieldName = ''ticker'' then Str (ticker t)
      else if fieldName = ''status'' then
        Str (case status t of Open \<Rightarrow> ''open'' | Closed \<Rightarrow> ''closed'')
      else if fieldName = ''entryDate'' then Str (entryDate t)
      else if fieldName = ''entryPrice'' then Num (entryPrice t)
      else if fieldName = ''exitDate'' then optional Str (exitDate t)
      else if fieldName = ''exitPrice'' then optional Num (exitPrice t)
      else if fieldName = ''shares'' then Num (shares t)
      else if fieldName = ''strategy'' then Str (strategy t)
      else if fieldName = ''notes'' then Str (trade_notes t)
      else if fieldName = ''pnl'' then optional Num (pnl t)
      else if fieldName = ''isWin'' then optional Bool (isWin t)
      else Undefined)"

text \<open>\<open>value.replace(/"/g, '""')\<close> and \<open>.replace(/\n/g, ' ')\<close>.\<close>

definition escapeQuotes :: "string \<Rightarrow> string" where
  "escapeQuotes s = concat (map (\<lambda>c. if c = CHR 0x22 then [CHR 0x22, CHR 0x22] else [c]) s)"

definition flattenNewlines :: "string \<Rightarrow> string" where
  "flattenNewlines s = map (\<lambda>c. if c = CHR 0x0A then CHR 0x20 else c) s"

text \<open>The branch for a string value: the quoted text of the field.\<close>

definition quoteField :: "string \<Rightarrow> string" where
  "quoteField v = CHR 0x22 # flattenNewlines (escapeQuotes v) @ [CHR 0x22]"

text \<open>
  One value of a row as \<open>join\<close> writes it: a string quoted, \<open>undefined\<close> as the empty
  text, a number through the built-in conversion \<open>numberToString\<close> (a parameter), a
  boolean as \<open>true\<close> or \<open>false\<close>.
\<close>

definition csvValue :: "(number \<Rightarrow> string) \<Rightarrow> js_value \<Rightarrow> string" where
  "csvValue numberToString v =
     (case v of
        Str s \<Rightarrow> quoteField s
      | Undefined \<Rightarrow> ''''
      | Num n \<Rightarrow> numberToString n
      | Bool b \<Rightarrow> (if b then ''true'' else ''false''))"

fun join :: "string \<Rightarrow> string list \<Rightarrow> string" where
  "join sep [] = ''''"
| "join sep [x] = x"
| "join sep (x # y # ys) = x @ sep @ join sep (y # ys)"

definition csvRow :: "(number \<Rightarrow> string) \<Rightarrow> trade \<Rightarrow> string" where
  "csvRow numberToString t =
     join '','' (map (\<lambda>fieldName. csvValue numberToString (fieldValue fieldName t)) header)"

text \<open>\<open>handleDownloadCsv\<close>: the text of the file, or \<open>None\<close> for the alert on an empty
  ledger.\<close>

definition handleDownloadCsv :: "(number \<Rightarrow> string) \<Rightarrow> trade list \<Rightarrow> string option" where
  "handleDownloadCsv numberToString ts =
     (if length ts = 0 then None
      else Some (join [CHR 0x0A] (join '','' header # map (csvRow numberToString) ts)))"

text \<open>
  Reading a field back, as a CSV reader does (RFC 4180): a field that starts with a
  quote runs to the first quote that is not doubled, and a doubled quote stands for one;
  any other field runs to the next comma or line end. The result is the field and the
  rest of the input; \<open>None\<close> for a quoted field that never ends. \<open>readQuoted\<close> starts
  after the opening quote.
\<close>

fun readQuoted :: "string \<Rightarrow> (string \<times> string) option" where
  "readQuoted [] = None"
| "readQuoted [c] = (if c = CHR 0x22 then Some ('''', '''') else None)"
| "readQuoted (c # d # cs) =
     (if c = CHR 0x22
      then (if d = CHR 0x22
            then map_option (\<lambda>(f, r). (CHR 0x22 # f, r)) (readQuoted cs)
            else Some ('''', d # cs))
      else map_option (\<lambda>(f, r). (c # f, r)) (readQuoted (d # cs)))"

definition readField :: "string \<Rightarrow> (string \<times> string) option" where
  "readField s =
     (case s of
        [] \<Rightarrow> Some ('''', '''')
      | c # cs \<Rightarrow>
          if c = CHR 0x22 then readQuoted cs
          else Some (takeWhile (\<lambda>x. x \<noteq> CHR '','' \<and> x \<noteq> CHR 0x0A) s,
                     dropWhile (\<lambda>x. x \<noteq> CHR '','' \<and> x \<noteq> CHR 0x0A) s))"

text \<open>
  Reading a whole row: fields separated by commas, up to the line end. The count bounds
  the number of fields read; \<open>readRow\<close> gives it more than the row has characters, and
  \<open>notesRead\<close> is the tenth field, the \<open>notes\<close> column of \<open>header\<close>.
\<close>

fun readFields :: "nat \<Rightarrow> string \<Rightarrow> string list option" where
  "readFields 0 s = None"
| "readFields (Suc n) s =
     (case readField s of
        None \<Rightarrow> None
      | Some (f, rest) \<Rightarrow>
          (case rest of
             [] \<Rightarrow> Some [f]
           | c # rest' \<Rightarrow>
               if c = CHR '','' then map_option ((#) f) (readFields n rest')
               else if c = CHR 0x0A then Some [f]
               else None))"

definition readRow :: "string \<Rightarrow> string list option" where
  "readRow s = readFields (Suc (length s)) s"

definition notesRead :: "string \<Rightarrow> string option" where
  "notesRead s =
     (case readRow s of
        None \<Rightarrow> None
      | Some fs \<Rightarrow> if 9 < length fs then Some (fs ! 9) else None)"

text \<open>What a reader gets back for an exported value: the text between the quotes for a
  string, the exported text itself otherwise.\<close>

definition readBack :: "(number \<Rightarrow> string) \<Rightarrow> js_value \<Rightarrow> string" where
  "readBack numberToString v =
     (case v of Str s \<Rightarrow> flattenNewlines s | _ \<Rightarrow> csvValue numberToString v)"

text \<open>The number conversion writes no comma, quote or newline (it writes digits, a
  sign, a point, an exponent, \<open>Infinity\<close> or \<open>NaN\<close>).\<close>

definition plainNumbers :: "(number \<Rightarrow> string) \<Rightarrow> bool" where
  "plainNumbers numberToString \<longleftrightarrow>
     (\<forall>n. \<forall>c \<in> set (numberToString n). c \<noteq> CHR '','' \<and> c \<noteq> CHR 0x22 \<and> c \<noteq> CHR 0x0A)"

section \<open>Sample trades\<close>

definition sample_open :: trade where
  "sample_open =
     \<lparr>trade_id = ''t1'', ticker = ''TSLA'', entryDate = ''2024-01-02'', entryPrice = 200,
      shares = 5, strategy = ''Breakout'', trade_notes = ''first'', status = Open,
      mindset = None, stopLoss = None, takeProfit = None, exitDate = None,
      exitPrice = None, chartImage = None, pnl = None, isWin = None\<rparr>"

definition sample_closed :: trade where
  "sample_closed =
     \<lparr>trade_id = ''t2'', ticker = ''AAPL'', entryDate = ''2024-01-01'', entryPrice = 100,
      shares = 10, strategy = ''Pullback'', trade_notes = ''second'', status = Closed,
      mindset = None, stopLoss = None, takeProfit = None, exitDate = Some ''2024-01-05'',
      exitPrice = Some 110, chartImage = None, pnl = Some 100, isWin = Some True\<rparr>"

definition sample_loss :: trade where
  "sample_loss =
     \<lparr>trade_id = ''t3'', ticker = ''GOOGL'', entryDate = ''2024-01-01'', entryPrice = 135,
      shares = 30, strategy = ''Mean Reversion'', trade_notes = ''third'', status = Closed,
      mindset = None, stopLoss = None, takeProfit = None, exitDate = Some ''2024-01-20'',
      exitPrice = Some 134, chartImage = None, pnl = Some (- 30), isWin = Some False\<rparr>"


text \<open>A closed trade as the sheet reader builds it from a row whose P/L and Result
  cells were edited by hand in the sheet.\<close>

definition sample_imported :: trade where
  "sample_imported =
     \<lparr>trade_id = ''a1'', ticker = ''AAPL'', entryDate = ''2024-01-01'', entryPrice = 100,
      shares = 10, strategy = ''Pullback'', trade_notes = ''from sheet'', status = Closed,
      mindset = None, stopLoss = None, takeProfit = None, exitDate = Some ''2024-01-05'',
      exitPrice = Some 110, chartImage = None, pnl = Some 50, isWin = Some False\<rparr>"

text \<open>\<open>parseFloat\<close> on the cell texts of the sample rows.\<close>

definition sample_parseFloat :: "string \<Rightarrow> number option" where
  "sample_parseFloat s =
     (if s = ''100'' then Some 100 else if s = ''10'' then Some 10
      else if s = ''110'' then Some 110 else if s = ''50'' then Some 50
      else if s = ''200'' then Some 200 else if s = ''5'' then Some 5 else None)"

definition sample_rows :: "string list list" where
  "sample_rows =
     [[''a1'', ''AAPL'', ''2024-01-01'', ''100'', ''10'', ''Pullback'', ''from sheet'',
       ''closed'', ''2024-01-05'', ''110'', ''50'', ''Loss''],
      [''a2'', '''', ''2024-01-03'', ''100'', ''10'', ''Breakout'', ''no ticker'', ''open''],
      [''a3'', ''TSLA'', ''2024-01-02'', ''200'', ''5'', ''Breakout'', ''still open'', ''open'']]"

definition sample_imported_open :: trade where
  "sample_imported_open =
     \<lparr>trade_id = ''a3'', ticker = ''TSLA'', entryDate = ''2024-01-02'', entryPrice = 200,
      shares = 5, strategy = ''Breakout'', trade_notes = ''still open'', status = Open,
      mindset = None, stopLoss = None, takeProfit = None, exitDate = None,
      exitPrice = None, chartImage = None, pnl = None, isWin = None\<rparr>"

text \<open>A trade whose notes hold a comma, a quote and a newline; the number conversion
  on the numbers of the samples.\<close>

definition sample_noted :: trade where
  "sample_noted = sample_open\<lparr>trade_notes := ''gap up, then '' @ [CHR 0x22] @ ''fade'' @ [CHR 0x22, CHR 0x0A] @ ''held''\<rparr>"

definition sample_numberToString :: "number \<Rightarrow> string" where
  "sample_numberToString n =
     (if n = 200 then ''200'' else if n = 5 then ''5'' else if n = 100 then ''100''
      else if n = 10 then ''10'' else if n = 110 then ''110'' else ''0'')"

text \<open>The trade built from a four-cell row: no status, exit price or P/L cell.\<close>

definition sample_defaulted :: trade where
  "sample_defaulted =
     \<lparr>trade_id = ''a4'', ticker = ''AAPL'', entryDate = ''2024-01-01'', entryPrice = 100,
      shares = 0, strategy = '''', trade_notes = '''', status = Closed,
      mindset = None, stopLoss = None, takeProfit = None, exitDate = Some '''',
      exitPrice = Some 0, chartImage = None, pnl = Some 0, isWin = Some False\<rparr>"



definition sample_B :: trade where
  "sample_B = sample_closed\<lparr>trade_id := ''B'', entryDate := ''n/a''\<rparr>"




text \<open>A stand-in for \<open>JSON.stringify\<close> and \<open>JSON.parse\<close> on the ledgers of the samples: the
  text lists the ids, and the reader knows the two sample trades.\<close>

definition sample_stringify :: "trade list \<Rightarrow> string" where
  "sample_stringify ts = ''['' @ concat (map (\<lambda>t. trade_id t @ '';'') ts) @ '']''"

definition sample_parse :: "string \<Rightarrow> trade list option" where
  "sample_parse text =
     (if text = ''[]'' then Some []
      else if text = ''[t1;]'' then Some [sample_open]
      else if text = ''[t2;]'' then Some [sample_closed]
      else if text = ''[t1;t2;]'' then Some [sample_open, sample_closed]
      else None)"

section \<open>Ledger: auxiliary facts\<close>

lemma findIndex_range: "- 1 \<le> findIndex p xs \<and> findIndex p xs < int (length xs)"
  by (induction xs) (auto simp: Let_def)

lemma findIndex_none: "findIndex p xs = - 1 \<longleftrightarrow> (\<forall>x \<in> set xs. \<not> p x)"
proof (induction xs)
  case Nil
  show ?case by simp
next
  case (Cons x xs)
  have "- 1 \<le> findIndex p xs" using findIndex_range by blast
  with Cons show ?case by (auto simp: Let_def)
qed

lemma findIndex_first:
  "findIndex p xs \<noteq> - 1 \<Longrightarrow>
     p (xs ! nat (findIndex p xs)) \<and> (\<forall>j < nat (findIndex p xs). \<not> p (xs ! j))"
proof (induction xs)
  case Nil
  then show ?case by simp
next
  case (Cons x xs)
  show ?case
  proof (cases "p x")
    case True
    then show ?thesis by simp
  next
    case False
    with Cons.prems have ne: "findIndex p xs \<noteq> - 1"
      by (auto simp: Let_def split: if_splits)
    have ge: "0 \<le> findIndex p xs" using ne findIndex_range [of p xs] by linarith
    have idx: "nat (findIndex p xs + 1) = Suc (nat (findIndex p xs))"
      using ge by (simp add: nat_add_distrib)
    from Cons.IH [OF ne] False ne show ?thesis
      by (auto simp: Let_def idx less_Suc_eq_0_disj)
  qed
qed

lemma handleSaveTrade_found:
  assumes "findIndex (\<lambda>x. trade_id x = trade_id t) ts \<noteq> - 1"
  shows "\<exists>i<length ts. trade_id (ts ! i) = trade_id t
            \<and> (\<forall>j<i. trade_id (ts ! j) \<noteq> trade_id t)
            \<and> handleSaveTrade t ts = ts[i := t]"
proof -
  let ?p = "\<lambda>x. trade_id x = trade_id t"
  let ?k = "findIndex ?p ts"
  have r: "- 1 \<le> ?k \<and> ?k < int (length ts)" by (rule findIndex_range)
  with assms have ge: "0 \<le> ?k" by linarith
  have lt: "nat ?k < length ts" using r ge by linarith
  have "handleSaveTrade t ts = ts[nat ?k := t]"
    using ge by (simp add: handleSaveTrade_def Let_def)
  with findIndex_first [OF assms] lt show ?thesis by blast
qed

lemma handleSaveTrade_absent:
  assumes "findIndex (\<lambda>x. trade_id x = trade_id t) ts = - 1"
  shows "handleSaveTrade t ts = t # ts"
  using assms by (simp add: handleSaveTrade_def)

section \<open>Ledger: persistence\<close>

lemma handler_fields:
  "trades (handler a s) = trades s \<and> swing_trades (handler a s) = swing_trades s
   \<and> effectDue (handler a s) = effectDue s \<and> mounted (handler a s) = mounted s"
  by (cases a) (auto simp: setTrades_def split: sum.splits)

lemma render_fields:
  "swing_trades (render s) = swing_trades s \<and> mounted (render s) = mounted s"
  by (simp add: render_def)

lemma step_invariant:
  assumes "mounted s \<and> \<not> effectDue s \<longrightarrow> swing_trades s = Some (stringify (trades s))"
  shows "mounted (step stringify s e) \<and> \<not> effectDue (step stringify s e) \<longrightarrow>
           swing_trades (step stringify s e) = Some (stringify (trades (step stringify s e)))"
proof (cases e)
  case (Handle a)
  with assms show ?thesis by (simp add: handler_fields)
next
  case Render
  with assms show ?thesis by (auto simp: render_def)
next
  case (Effect stored)
  with assms show ?thesis by (auto simp: persist_effect_def)
qed

lemma run_invariant:
  "(mounted s \<and> \<not> effectDue s \<longrightarrow> swing_trades s = Some (stringify (trades s))) \<Longrightarrow>
     mounted (run stringify s events) \<and> \<not> effectDue (run stringify s events) \<longrightarrow>
       swing_trades (run stringify s events) = Some (stringify (trades (run stringify s events)))"
proof (induction events arbitrary: s)
  case Nil
  then show ?case by (simp add: run_def)
next
  case (Cons e events)
  have "mounted (step stringify s e) \<and> \<not> effectDue (step stringify s e) \<longrightarrow>
           swing_trades (step stringify s e) = Some (stringify (trades (step stringify s e)))"
    using Cons.prems by (rule step_invariant)
  from Cons.IH [OF this] show ?case by (simp add: run_def)
qed

lemma mount_pending: "mounted (mount parse savedTrades) \<longrightarrow> effectDue (mount parse savedTrades)"
  by (simp add: mount_def setTrades_def Let_def split: option.splits)

lemma run_append: "run stringify s (xs @ ys) = run stringify (run stringify s xs) ys"
  by (simp add: run_def)

lemma startup_settled:
  assumes "mounted (mount parse savedTrades)"
  shows "settled (run stringify (mount parse savedTrades) startup)"
  using assms
  by (auto simp: mount_def setTrades_def Let_def run_def startup_def persist_effect_def
      render_def settled_def split: option.splits if_splits)

lemma operation_unqueued:
  assumes "settled s" and "handler a s = s"
  shows "run stringify s (operation a stored) = s"
  using assms by (simp add: run_def operation_def render_def persist_effect_def settled_def)

lemma operation_queued:
  assumes "settled s" and "handler a s = setTrades f s"
  shows "run stringify s (operation a True)
           = s\<lparr>trades := f (trades s), swing_trades := Some (stringify (f (trades s)))\<rparr>"
    and "run stringify s (operation a False) = s\<lparr>trades := f (trades s), mounted := False\<rparr>"
  using assms
  by (simp_all add: run_def operation_def render_def persist_effect_def settled_def
      setTrades_def)

lemma handler_cases: "handler a s = s \<or> (\<exists>f. handler a s = setTrades f s)"
  by (cases a) (auto split: sum.splits)

lemma operation_settled:
  assumes "settled s"
  shows "settled (run stringify s (operation a True))"
proof -
  from handler_cases [of a s] show ?thesis
  proof
    assume "handler a s = s"
    with assms show ?thesis by (simp add: operation_unqueued)
  next
    assume "\<exists>f. handler a s = setTrades f s"
    then obtain f where "handler a s = setTrades f s" ..
    from operation_queued(1) [OF assms this] assms show ?thesis
      by (simp add: settled_def)
  qed
qed

lemma operations_settled:
  "settled s \<Longrightarrow> settled (run stringify s (concat (map (\<lambda>a. operation a True) acts)))"
proof (induction acts arbitrary: s)
  case Nil
  then show ?case by (simp add: run_def)
next
  case (Cons a acts)
  have "settled (run stringify s (operation a True))"
    using Cons.prems by (rule operation_settled)
  from Cons.IH [OF this] show ?case by (simp add: run_append)
qed

lemma operations_persisted:
  assumes "mounted (mount parse savedTrades)"
  shows "settled (run stringify (mount parse savedTrades)
            (startup @ concat (map (\<lambda>a. operation a True) acts)))
       \<and> swing_trades (run stringify (mount parse savedTrades)
            (startup @ concat (map (\<lambda>a. operation a True) acts)))
         = Some (stringify (trades (run stringify (mount parse savedTrades)
            (startup @ concat (map (\<lambda>a. operation a True) acts)))))"
proof -
  let ?s = "run stringify (mount parse savedTrades)
              (startup @ concat (map (\<lambda>a. operation a True) acts))"
  have st: "settled ?s"
    unfolding run_append by (rule operations_settled) (rule startup_settled [OF assms])
  have "mounted ?s \<and> \<not> effectDue ?s \<longrightarrow> swing_trades ?s = Some (stringify (trades ?s))"
    by (rule run_invariant) (use mount_pending in blast)
  with st show ?thesis by (simp add: settled_def)
qed

lemma reload:
  assumes "text \<noteq> ''''" and "parse text = Some ts"
  shows "trades (run stringify (mount parse (Some text)) startup) = ts"
  using assms
  by (simp add: mount_def setTrades_def Let_def run_def startup_def persist_effect_def
      render_def)

text \<open>
  C1, as amended. A handler (saving, deleting, importing) writes nothing and leaves the
  in-memory sequence as it is: it hands the change to \<open>setTrades\<close> and returns. The
  sequence changes at the next render, which writes nothing either, and the
  \<open>swing-trades\<close> entry is written by the effect that runs after that render; a write that
  throws leaves the entry as it was. What holds at every moment, after any events in
  any order, is this: while the component is mounted and no effect is pending, the entry
  is \<open>JSON.stringify\<close> of the in-memory sequence. In particular it is so after mounting
  and after each operation carried to the end of its effect with every write stored;
  such a save, deletion or import changes the sequence by its updater, and a declined or
  failed one changes nothing. An operation whose write throws leaves the entry without
  the change. The entry reads back as the in-memory sequence when \<open>JSON.parse\<close> undoes
  \<open>JSON.stringify\<close> on it.
\<close>

theorem persisted_when_settled:
  "trades (step stringify s (Handle a)) = trades s
   \<and> swing_trades (step stringify s (Handle a)) = swing_trades s
   \<and> swing_trades (step stringify s Render) = swing_trades s
   \<and> swing_trades (step stringify s (Effect False)) = swing_trades s
   \<and> (\<forall>k. mounted (run stringify (mount parse savedTrades) (take k events))
          \<and> \<not> effectDue (run stringify (mount parse savedTrades) (take k events)) \<longrightarrow>
          swing_trades (run stringify (mount parse savedTrades) (take k events))
            = Some (stringify (trades (run stringify (mount parse savedTrades) (take k events)))))
   \<and> (mounted (mount parse savedTrades) \<longrightarrow>
        (\<forall>k. settled (run stringify (mount parse savedTrades)
                 (startup @ concat (map (\<lambda>a. operation a True) (take k acts))))
           \<and> swing_trades (run stringify (mount parse savedTrades)
                 (startup @ concat (map (\<lambda>a. operation a True) (take k acts))))
             = Some (stringify (trades (run stringify (mount parse savedTrades)
                 (startup @ concat (map (\<lambda>a. operation a True) (take k acts))))))))
   \<and> (settled s \<longrightarrow>
        trades (run stringify s (operation (SaveTrade t) True)) = handleSaveTrade t (trades s)
        \<and> trades (run stringify s (operation (DeleteTrade tradeId True) True))
            = deleteTrade tradeId (trades s)
        \<and> trades (run stringify s (operation (ImportFromSheets True (Inr ts)) True)) = ts
        \<and> trades (run stringify s (operation (ImportFromBroker True True (Inr ts)) True)) = ts
        \<and> run stringify s (operation (DeleteTrade tradeId False) stored) = s
        \<and> run stringify s (operation (ImportFromSheets False fetched) stored) = s
        \<and> run stringify s (operation (ImportFromSheets True (Inl e)) stored) = s
        \<and> run stringify s (operation (ImportFromBroker False confirmed fetched) stored) = s
        \<and> run stringify s (operation (ImportFromBroker True False fetched) stored) = s
        \<and> run stringify s (operation (ImportFromBroker True True (Inl e)) stored) = s)
   \<and> (settled s \<and> queue (handler a s) \<noteq> [] \<longrightarrow>
        swing_trades (run stringify s (operation a False)) = swing_trades s
        \<and> \<not> mounted (run stringify s (operation a False)))
   \<and> (settled s \<and> swing_trades s = Some (stringify (trades s))
        \<and> stringify (trades s) \<noteq> '''' \<and> parse (stringify (trades s)) = Some (trades s) \<longrightarrow>
        trades (run stringify (mount parse (swing_trades s)) startup) = trades s)"
proof -
  have c1: "trades (step stringify s (Handle a)) = trades s"
    and c2: "swing_trades (step stringify s (Handle a)) = swing_trades s"
    by (simp_all add: handler_fields)
  have c3: "swing_trades (step stringify s Render) = swing_trades s"
    by (simp add: render_fields)
  have c4: "swing_trades (step stringify s (Effect False)) = swing_trades s"
    by (simp add: persist_effect_def)
  have c5: "mounted (run stringify (mount parse savedTrades) (take k events))
          \<and> \<not> effectDue (run stringify (mount parse savedTrades) (take k events)) \<longrightarrow>
          swing_trades (run stringify (mount parse savedTrades) (take k events))
            = Some (stringify (trades (run stringify (mount parse savedTrades) (take k events))))"
    for k
    by (rule run_invariant) (use mount_pending in blast)
  have c6: "settled (run stringify (mount parse savedTrades)
                 (startup @ concat (map (\<lambda>a. operation a True) (take k acts))))
           \<and> swing_trades (run stringify (mount parse savedTrades)
                 (startup @ concat (map (\<lambda>a. operation a True) (take k acts))))
             = Some (stringify (trades (run stringify (mount parse savedTrades)
                 (startup @ concat (map (\<lambda>a. operation a True) (take k acts))))))"
    if "mounted (mount parse savedTrades)" for k
    using that by (rule operations_persisted)
  have c7: "trades (run stringify s (operation (SaveTrade t) True)) = handleSaveTrade t (trades s)
        \<and> trades (run stringify s (operation (DeleteTrade tradeId True) True))
            = deleteTrade tradeId (trades s)
        \<and> trades (run stringify s (operation (ImportFromSheets True (Inr ts)) True)) = ts
        \<and> trades (run stringify s (operation (ImportFromBroker True True (Inr ts)) True)) = ts
        \<and> run stringify s (operation (DeleteTrade tradeId False) stored) = s
        \<and> run stringify s (operation (ImportFromSheets False fetched) stored) = s
        \<and> run stringify s (operation (ImportFromSheets True (Inl e)) stored) = s
        \<and> run stringify s (operation (ImportFromBroker False confirmed fetched) stored) = s
        \<and> run stringify s (operation (ImportFromBroker True False fetched) stored) = s
        \<and> run stringify s (operation (ImportFromBroker True True (Inl e)) stored) = s"
    if st: "settled s"
  proof -
    have "trades (run stringify s (operation (SaveTrade t) True)) = handleSaveTrade t (trades s)"
      by (subst operation_queued(1) [OF st, where f = "handleSaveTrade t"]) simp_all
    moreover have "trades (run stringify s (operation (DeleteTrade tradeId True) True))
            = deleteTrade tradeId (trades s)"
      by (subst operation_queued(1) [OF st, where f = "deleteTrade tradeId"]) simp_all
    moreover have "trades (run stringify s (operation (ImportFromSheets True (Inr ts)) True)) = ts"
      by (subst operation_queued(1) [OF st, where f = "\<lambda>prev. ts"]) simp_all
    moreover have
      "trades (run stringify s (operation (ImportFromBroker True True (Inr ts)) True)) = ts"
      by (subst operation_queued(1) [OF st, where f = "\<lambda>prev. ts"]) simp_all
    moreover have "run stringify s (operation (DeleteTrade tradeId False) stored) = s"
      "run stringify s (operation (ImportFromSheets False fetched) stored) = s"
      "run stringify s (operation (ImportFromSheets True (Inl e)) stored) = s"
      "run stringify s (operation (ImportFromBroker False confirmed fetched) stored) = s"
      "run stringify s (operation (ImportFromBroker True False fetched) stored) = s"
      "run stringify s (operation (ImportFromBroker True True (Inl e)) stored) = s"
      by (simp_all add: operation_unqueued [OF st])
    ultimately show ?thesis by blast
  qed
  have c8: "swing_trades (run stringify s (operation a False)) = swing_trades s
        \<and> \<not> mounted (run stringify s (operation a False))"
    if "settled s \<and> queue (handler a s) \<noteq> []"
  proof -
    from that have "handler a s \<noteq> s" by (auto simp: settled_def)
    with handler_cases [of a s] obtain f where "handler a s = setTrades f s" by blast
    from operation_queued(2) [OF _ this] that show ?thesis by simp
  qed
  have c9: "trades (run stringify (mount parse (swing_trades s)) startup) = trades s"
    if "settled s \<and> swing_trades s = Some (stringify (trades s))
        \<and> stringify (trades s) \<noteq> '''' \<and> parse (stringify (trades s)) = Some (trades s)"
    using that by (simp add: reload)
  from c1 c2 c3 c4 c5 c6 c7 c8 c9 show ?thesis by blast
qed

theorem persisted_when_settled_witness:
  "settled (run sample_stringify (mount sample_parse (Some ''[t2;]'')) startup)
   \<and> trades (run sample_stringify (mount sample_parse (Some ''[t2;]'')) startup)
       = [sample_closed]
   \<and> mounted (run sample_stringify (mount sample_parse (Some ''[t2;]''))
        (take 4 [Effect True, Handle (SaveTrade sample_open), Render, Effect True, Render]))
   \<and> \<not> effectDue (run sample_stringify (mount sample_parse (Some ''[t2;]''))
        (take 4 [Effect True, Handle (SaveTrade sample_open), Render, Effect True, Render]))
   \<and> swing_trades (run sample_stringify (mount sample_parse (Some ''[t2;]''))
        (take 4 [Effect True, Handle (SaveTrade sample_open), Render, Effect True, Render]))
       = Some ''[t1;t2;]''
   \<and> mounted (mount sample_parse (Some ''[t2;]''))
   \<and> trades (run sample_stringify (mount sample_parse (Some ''[t2;]''))
        (startup @ concat (map (\<lambda>a. operation a True)
           (take 4 [SaveTrade sample_open, DeleteTrade ''t2'' True, DeleteTrade ''t1'' False,
                    ImportFromSheets True (Inl RequestFailed)])))) = [sample_open]
   \<and> swing_trades (run sample_stringify (mount sample_parse (Some ''[t2;]''))
        (startup @ concat (map (\<lambda>a. operation a True)
           (take 4 [SaveTrade sample_open, DeleteTrade ''t2'' True, DeleteTrade ''t1'' False,
                    ImportFromSheets True (Inl RequestFailed)])))) = Some ''[t1;]''
   \<and> trades (run sample_stringify
        (run sample_stringify (mount sample_parse (Some ''[t2;]'')) startup)
        (operation (SaveTrade sample_open) True)) = [sample_open, sample_closed]
   \<and> queue (handler (SaveTrade sample_open)
        (run sample_stringify (mount sample_parse (Some ''[t2;]'')) startup)) \<noteq> []
   \<and> swing_trades (run sample_stringify
        (run sample_stringify (mount sample_parse (Some ''[t2;]'')) startup)
        (operation (SaveTrade sample_open) False)) = Some ''[t2;]''
   \<and> sample_parse (sample_stringify [sample_closed]) = Some [sample_closed]
   \<and> trades (run sample_stringify
        (mount sample_parse
           (swing_trades (run sample_stringify (mount sample_parse (Some ''[t2;]'')) startup)))
        startup) = [sample_closed]"
proof -
  let ?m = "mount sample_parse (Some ''[t2;]'')"
  let ?s = "run sample_stringify ?m startup"
  let ?events = "[Effect True, Handle (SaveTrade sample_open), Render, Effect True, Render]"
  let ?acts = "[SaveTrade sample_open, DeleteTrade ''t2'' True, DeleteTrade ''t1'' False,
                ImportFromSheets True (Inl RequestFailed)]"
  let ?after = "run sample_stringify ?m
                  (startup @ concat (map (\<lambda>a. operation a True) (take 4 ?acts)))"
  note inst = persisted_when_settled [where stringify = sample_stringify
      and parse = sample_parse and savedTrades = "Some ''[t2;]''" and events = ?events
      and acts = ?acts and s = ?s and a = "SaveTrade sample_open" and t = sample_open]
  have st: "settled ?s" by code_simp
  have t0: "trades ?s = [sample_closed]" by code_simp
  have e0: "swing_trades ?s = Some ''[t2;]''" by code_simp
  have h5: "mounted (run sample_stringify ?m (take 4 ?events))
      \<and> \<not> effectDue (run sample_stringify ?m (take 4 ?events))" by code_simp
  have t5: "trades (run sample_stringify ?m (take 4 ?events)) = [sample_open, sample_closed]"
    by code_simp
  have s5: "sample_stringify [sample_open, sample_closed] = ''[t1;t2;]''" by code_simp
  from inst h5 have "swing_trades (run sample_stringify ?m (take 4 ?events))
      = Some (sample_stringify (trades (run sample_stringify ?m (take 4 ?events))))"
    by blast
  then have r5: "swing_trades (run sample_stringify ?m (take 4 ?events)) = Some ''[t1;t2;]''"
    unfolding t5 s5 .
  have h6: "mounted ?m" by code_simp
  have t6: "trades ?after = [sample_open]" by code_simp
  have s6: "sample_stringify [sample_open] = ''[t1;]''" by code_simp
  from inst h6 have "swing_trades ?after = Some (sample_stringify (trades ?after))" by blast
  then have r6: "swing_trades ?after = Some ''[t1;]''" unfolding t6 s6 .
  from inst st
  have "trades (run sample_stringify ?s (operation (SaveTrade sample_open) True))
          = handleSaveTrade sample_open (trades ?s)"
    by blast
  moreover have "handleSaveTrade sample_open [sample_closed] = [sample_open, sample_closed]"
    by code_simp
  ultimately
  have r7: "trades (run sample_stringify ?s (operation (SaveTrade sample_open) True))
          = [sample_open, sample_closed]"
    unfolding t0 by simp
  have h8: "queue (handler (SaveTrade sample_open) ?s) \<noteq> []" by (simp add: setTrades_def)
  from inst st h8
  have "swing_trades (run sample_stringify ?s (operation (SaveTrade sample_open) False))
          = swing_trades ?s"
    by blast
  then have r8: "swing_trades (run sample_stringify ?s (operation (SaveTrade sample_open) False))
          = Some ''[t2;]''"
    unfolding e0 .
  have p9: "sample_parse (sample_stringify [sample_closed]) = Some [sample_closed]"
    by code_simp
  have n9: "sample_stringify [sample_closed] \<noteq> ''''" by code_simp
  have e9: "swing_trades ?s = Some (sample_stringify (trades ?s))" by code_simp
  from inst st e9 n9 p9
  have "trades (run sample_stringify (mount sample_parse (swing_trades ?s)) startup) = trades ?s"
    unfolding t0 by blast
  then have r9: "trades (run sample_stringify (mount sample_parse (swing_trades ?s)) startup)
          = [sample_closed]"
    unfolding t0 .
  from st t0 h5 r5 h6 t6 r6 r7 h8 r8 p9 r9 show ?thesis by blast
qed

text \<open>
  C1 as stated fails: no operation persists the sequence before it returns. Mount on an
  empty store and let the startup settle: the entry is the text of the empty ledger.
  When the handler of a save has returned, nothing has been written and the in-memory
  sequence is unchanged; after the render the in-memory sequence holds the new trade and
  the entry is still the text of the empty ledger; and when the write of the effect
  throws, it stays so.
\<close>

theorem save_returns_unpersisted_counterexample:
  "swing_trades (run sample_stringify (mount sample_parse None) startup) = Some ''[]''
   \<and> trades (run sample_stringify (mount sample_parse None)
        (startup @ [Handle (SaveTrade sample_open)])) = []
   \<and> swing_trades (run sample_stringify (mount sample_parse None)
        (startup @ [Handle (SaveTrade sample_open)])) = Some ''[]''
   \<and> trades (run sample_stringify (mount sample_parse None)
        (startup @ [Handle (SaveTrade sample_open), Render])) = [sample_open]
   \<and> swing_trades (run sample_stringify (mount sample_parse None)
        (startup @ [Handle (SaveTrade sample_open), Render])) = Some ''[]''
   \<and> trades (run sample_stringify (mount sample_parse None)
        (startup @ operation (SaveTrade sample_open) False)) = [sample_open]
   \<and> swing_trades (run sample_stringify (mount sample_parse None)
        (startup @ operation (SaveTrade sample_open) False)) = Some ''[]''
   \<and> sample_stringify [sample_open] = ''[t1;]''
   \<and> sample_parse ''[]'' = Some []"
  by code_simp

section \<open>Ledger: saving a trade\<close>

text \<open>
  C2, as amended. \<open>handleSaveTrade\<close> is an upsert. When some entry has the saved trade's
  id, the first such entry is replaced in place: the length is unchanged, the saved trade
  sits at that position and every other position keeps its entry. When no entry has the
  id, nothing fails: the saved trade is inserted at the head, in front of the unchanged
  entries.
\<close>

theorem handleSaveTrade_replaces_or_prepends:
  "(list_ex (\<lambda>x. trade_id x = trade_id t) ts \<longrightarrow>
      (\<exists>i<length ts. trade_id (ts ! i) = trade_id t
          \<and> (\<forall>j<i. trade_id (ts ! j) \<noteq> trade_id t)
          \<and> length (handleSaveTrade t ts) = length ts
          \<and> handleSaveTrade t ts ! i = t
          \<and> (\<forall>j<length ts. j \<noteq> i \<longrightarrow> handleSaveTrade t ts ! j = ts ! j)))
   \<and> (\<not> list_ex (\<lambda>x. trade_id x = trade_id t) ts \<longrightarrow> handleSaveTrade t ts = t # ts)"
proof (intro conjI impI)
  assume "list_ex (\<lambda>x. trade_id x = trade_id t) ts"
  then have "findIndex (\<lambda>x. trade_id x = trade_id t) ts \<noteq> - 1"
    by (simp add: findIndex_none list_ex_iff)
  from handleSaveTrade_found [OF this]
  obtain i where i: "i < length ts" "trade_id (ts ! i) = trade_id t"
      "\<forall>j<i. trade_id (ts ! j) \<noteq> trade_id t" "handleSaveTrade t ts = ts[i := t]"
    by blast
  then show "\<exists>i<length ts. trade_id (ts ! i) = trade_id t
          \<and> (\<forall>j<i. trade_id (ts ! j) \<noteq> trade_id t)
          \<and> length (handleSaveTrade t ts) = length ts
          \<and> handleSaveTrade t ts ! i = t
          \<and> (\<forall>j<length ts. j \<noteq> i \<longrightarrow> handleSaveTrade t ts ! j = ts ! j)"
    by (intro exI [of _ i]) simp
next
  assume "\<not> list_ex (\<lambda>x. trade_id x = trade_id t) ts"
  then have "findIndex (\<lambda>x. trade_id x = trade_id t) ts = - 1"
    by (simp add: findIndex_none list_ex_iff)
  then show "handleSaveTrade t ts = t # ts" by (rule handleSaveTrade_absent)
qed


theorem handleSaveTrade_replaces_or_prepends_witness:
  "list_ex (\<lambda>x. trade_id x = trade_id (sample_closed\<lparr>trade_notes := ''edited''\<rparr>))
      [sample_open, sample_closed]
   \<and> handleSaveTrade (sample_closed\<lparr>trade_notes := ''edited''\<rparr>) [sample_open, sample_closed] ! 1
       = sample_closed\<lparr>trade_notes := ''edited''\<rparr>
   \<and> handleSaveTrade (sample_closed\<lparr>trade_notes := ''edited''\<rparr>) [sample_open, sample_closed] ! 0
       = sample_open
   \<and> \<not> list_ex (\<lambda>x. trade_id x = trade_id sample_open) [sample_closed]
   \<and> handleSaveTrade sample_open [sample_closed] = [sample_open, sample_closed]"
proof -
  let ?e = "sample_closed\<lparr>trade_notes := ''edited''\<rparr>"
  let ?ts = "[sample_open, sample_closed]"
  have h1: "list_ex (\<lambda>x. trade_id x = trade_id ?e) ?ts"
    by (simp add: sample_open_def sample_closed_def)
  have h2: "\<not> list_ex (\<lambda>x. trade_id x = trade_id sample_open) [sample_closed]"
    by (simp add: sample_open_def sample_closed_def)
  from handleSaveTrade_replaces_or_prepends [of ?e ?ts] h1
  obtain i where i: "i < length ?ts" "trade_id (?ts ! i) = trade_id ?e"
     "handleSaveTrade ?e ?ts ! i = ?e"
     "\<forall>j<length ?ts. j \<noteq> i \<longrightarrow> handleSaveTrade ?e ?ts ! j = ?ts ! j"
    by blast
  have "i \<noteq> 0"
  proof
    assume "i = 0"
    with i(2) show False by (simp add: sample_open_def sample_closed_def)
  qed
  with i(1) have i1: "i = 1" by simp
  have r1: "handleSaveTrade ?e ?ts ! 1 = ?e" using i(3) i1 by simp
  have r0: "handleSaveTrade ?e ?ts ! 0 = sample_open" using i(4) i1 by simp
  from handleSaveTrade_replaces_or_prepends [of sample_open "[sample_closed]"] h2
  have r2: "handleSaveTrade sample_open [sample_closed] = [sample_open, sample_closed]" by blast
  from h1 r1 r0 h2 r2 show ?thesis by blast
qed


text \<open>
  C2 as stated fails in its second half: saving a trade whose id is not in the ledger
  does not fail with \<open>NotFoundError\<close>, as \<open>update_spec\<close> would; it yields a ledger that
  contains the trade.
\<close>

theorem update_not_found_counterexample:
  "update_spec sample_open [] = Inl NotFoundError
   \<and> handleSaveTrade sample_open [] = [sample_open]
   \<and> Inr (handleSaveTrade sample_open []) \<noteq> update_spec sample_open []"
  by (simp add: update_spec_def handleSaveTrade_def)

section \<open>Analytics: win rate\<close>

lemma foldl_add_shift:
  "foldl (\<lambda>acc x. acc + f x) (a::rat) xs = a + sum_list (map f xs)"
  by (induction xs arbitrary: a) (simp_all add: add.assoc)

lemma totalPnl_sum:
  "totalPnl ts = sum_list (map (\<lambda>t. or_zero (pnl t)) (closedTrades ts))"
  by (simp add: totalPnl_def foldl_add_shift)

lemma closedTrades_length:
  "length (closedTrades ts) = length (filter (\<lambda>t. status t = Closed) ts)"
  by (simp add: closedTrades_def)

lemma winningTrades_count:
  "winningTrades ts = length (filter (\<lambda>t. status t = Closed \<and> isWin t = Some True) ts)"
  by (simp add: winningTrades_def closedTrades_def conj_commute)

text \<open>Rounding to a double: the result is within half a unit in the last place, that is
  within a relative \<open>2 ^ -53\<close>, and keeps the sign.\<close>

lemma roundEven_error: "\<bar>of_int (roundEven y) - y\<bar> \<le> 1 / 2"
proof -
  have "of_int \<lfloor>y\<rfloor> \<le> y" "y < of_int \<lfloor>y\<rfloor> + 1" by linarith+
  then show ?thesis by (auto simp: roundEven_def Let_def)
qed

lemma roundEven_nonneg: "0 \<le> y \<Longrightarrow> 0 \<le> roundEven y"
  by (auto simp: roundEven_def Let_def)

lemma binade_bounds:
  assumes "x \<noteq> 0"
  shows "2 powi binade x \<le> \<bar>x\<bar>" and "\<bar>x\<bar> < 2 powi (binade x + 1)"
proof -
  obtain p q where pq: "quotient_of \<bar>x\<bar> = (p, q)" by (cases "quotient_of \<bar>x\<bar>")
  have q: "0 < q" using pq by (rule quotient_of_denom_pos)
  have x: "\<bar>x\<bar> = of_int p / of_int q" using pq by (rule quotient_of_div)
  from assms have "0 < \<bar>x\<bar>" by simp
  with x q have p: "0 < p" by (simp add: zero_less_divide_iff)
  let ?d = "bitlen p - bitlen q"
  have bp: "1 \<le> bitlen p" "1 \<le> bitlen q"
    using p q bitlen_eq_zero_iff [of p] bitlen_eq_zero_iff [of q] bitlen_nonneg [of p]
      bitlen_nonneg [of q] by linarith+
  have p1: "(2::rat) powi (bitlen p - 1) \<le> of_int p" and p2: "of_int p < (2::rat) powi bitlen p"
  proof -
    from bitlen_bounds [OF p] have "2 ^ nat (bitlen p - 1) \<le> p" "p < 2 ^ nat (bitlen p)" by blast+
    then have "(of_int (2 ^ nat (bitlen p - 1)) :: rat) \<le> of_int p"
      "(of_int p :: rat) < of_int (2 ^ nat (bitlen p))"
      by (simp_all only: of_int_le_iff of_int_less_iff)
    then show "(2::rat) powi (bitlen p - 1) \<le> of_int p" "of_int p < (2::rat) powi bitlen p"
      using bp by (simp_all add: power_int_def)
  qed
  have q1: "(2::rat) powi (bitlen q - 1) \<le> of_int q" and q2: "of_int q < (2::rat) powi bitlen q"
  proof -
    from bitlen_bounds [OF q] have "2 ^ nat (bitlen q - 1) \<le> q" "q < 2 ^ nat (bitlen q)" by blast+
    then have "(of_int (2 ^ nat (bitlen q - 1)) :: rat) \<le> of_int q"
      "(of_int q :: rat) < of_int (2 ^ nat (bitlen q))"
      by (simp_all only: of_int_le_iff of_int_less_iff)
    then show "(2::rat) powi (bitlen q - 1) \<le> of_int q" "of_int q < (2::rat) powi bitlen q"
      using bp by (simp_all add: power_int_def)
  qed
  have qr: "(0::rat) < of_int q" using q by simp
  have lower: "(2::rat) powi (?d - 1) \<le> \<bar>x\<bar>"
  proof -
    have "(2::rat) powi (?d - 1) = 2 powi (bitlen p - 1) / 2 powi bitlen q"
      by (simp add: power_int_diff)
    also have "\<dots> \<le> of_int p / 2 powi bitlen q"
      using p1 by (simp add: divide_right_mono)
    also have "\<dots> \<le> of_int p / of_int q"
      using q2 qr p by (simp add: frac_le)
    finally show ?thesis by (simp add: x)
  qed
  have upper: "\<bar>x\<bar> < (2::rat) powi (?d + 1)"
  proof -
    have "of_int p / of_int q < (2::rat) powi bitlen p / of_int q"
      using p2 qr by (simp add: divide_strict_right_mono)
    also have "\<dots> \<le> 2 powi bitlen p / 2 powi (bitlen q - 1)"
      using q1 by (simp add: frac_le)
    also have "\<dots> = 2 powi (?d + 1)"
      by (simp add: power_int_diff power_int_add)
    finally show ?thesis by (simp add: x)
  qed
  have b: "binade x = (if 2 powi ?d \<le> \<bar>x\<bar> then ?d else ?d - 1)"
    by (simp add: binade_def pq Let_def)
  show "2 powi binade x \<le> \<bar>x\<bar>"
    using lower by (simp add: b)
  show "\<bar>x\<bar> < 2 powi (binade x + 1)"
    using upper by (auto simp: b not_le)
qed

lemma fl_error: "\<bar>fl x - x\<bar> \<le> \<bar>x\<bar> / 2 ^ 53"
proof (cases "x = 0")
  case True
  then show ?thesis by (simp add: fl_def)
next
  case False
  let ?u = "(2::rat) powi (binade x - 52)"
  have u: "0 < ?u" by simp
  have "fl x - x = (of_int (roundEven (x / ?u)) - x / ?u) * ?u"
    using False u by (simp add: fl_def Let_def algebra_simps)
  then have "\<bar>fl x - x\<bar> = \<bar>of_int (roundEven (x / ?u)) - x / ?u\<bar> * ?u"
    using u by (simp add: abs_mult)
  also have "\<dots> \<le> (1 / 2) * ?u"
    using roundEven_error [of "x / ?u"] u by (intro mult_right_mono) simp_all
  also have "\<dots> = 2 powi binade x / 2 ^ 53"
    by (simp add: power_int_diff)
  also have "\<dots> \<le> \<bar>x\<bar> / 2 ^ 53"
    using binade_bounds(1) [OF False] by (simp add: divide_right_mono)
  finally show ?thesis .
qed

lemma fl_nonneg: "0 \<le> x \<Longrightarrow> 0 \<le> fl x"
  by (simp add: fl_def Let_def roundEven_nonneg)

lemma fl_exact_values: "fl 0 = 0" "fl 1 = 1" "fl 100 = 100"
  by code_simp+

lemma twice_rounded_error:
  assumes "0 \<le> x"
  shows "\<bar>fl (fl x * 100) - 100 * x\<bar> \<le> (100 * x) * (2 / 2 ^ 53 + 1 / 2 ^ 106)"
proof -
  let ?a = "fl x"
  have a0: "0 \<le> ?a" using assms by (rule fl_nonneg)
  have e1: "\<bar>?a - x\<bar> \<le> x / 2 ^ 53" using fl_error [of x] assms by simp
  then have a1: "?a \<le> x + x / 2 ^ 53" by linarith
  have e2: "\<bar>fl (?a * 100) - ?a * 100\<bar> \<le> (?a * 100) / 2 ^ 53"
    using fl_error [of "?a * 100"] a0 by simp
  have "(?a * 100) / 2 ^ 53 \<le> ((x + x / 2 ^ 53) * 100) / 2 ^ 53"
    using a1 by (simp add: divide_right_mono)
  with e2 have e2': "\<bar>fl (?a * 100) - ?a * 100\<bar> \<le> ((x + x / 2 ^ 53) * 100) / 2 ^ 53"
    by linarith
  have "\<bar>fl (?a * 100) - 100 * x\<bar> \<le> \<bar>fl (?a * 100) - ?a * 100\<bar> + 100 * \<bar>?a - x\<bar>"
    by (simp add: abs_if split: if_splits)
  also have "\<dots> \<le> ((x + x / 2 ^ 53) * 100) / 2 ^ 53 + 100 * (x / 2 ^ 53)"
  proof (rule add_mono)
    show "\<bar>fl (?a * 100) - ?a * 100\<bar> \<le> ((x + x / 2 ^ 53) * 100) / 2 ^ 53" by (rule e2')
    show "100 * \<bar>?a - x\<bar> \<le> 100 * (x / 2 ^ 53)" using e1 by (intro mult_left_mono) simp_all
  qed
  also have "\<dots> = (100 * x) * (2 / 2 ^ 53 + 1 / 2 ^ 106)"
    by (simp add: field_simps)
  finally show ?thesis .
qed

text \<open>
  C5, as amended. The win rate of the empty ledger, and of any ledger without closed
  trades, is 0: the guard on the number of closed trades keeps the division away from
  zero. With \<open>N > 0\<close> closed trades, \<open>W\<close> of them flagged as wins, the win rate is the
  double nearest to 100 times the double nearest to \<open>W / N\<close>. It is not always
  \<open>100 * W / N\<close>: it lies within a relative \<open>2 ^ -52 + 2 ^ -106\<close> of it, and it is exactly 100
  when every closed trade is a win and exactly 0 when none is.
\<close>

theorem winRate_rounded:
  "winRate [] = 0
   \<and> (filter (\<lambda>t. status t = Closed) ts = [] \<longrightarrow> winRate ts = 0)
   \<and> (0 < length (filter (\<lambda>t. status t = Closed) ts) \<longrightarrow>
        winRate ts =
          fl (fl (of_nat (length (filter (\<lambda>t. status t = Closed \<and> isWin t = Some True) ts))
                  / of_nat (length (filter (\<lambda>t. status t = Closed) ts))) * 100)
        \<and> \<bar>winRate ts
            - 100 * of_nat (length (filter (\<lambda>t. status t = Closed \<and> isWin t = Some True) ts))
                / of_nat (length (filter (\<lambda>t. status t = Closed) ts))\<bar>
          \<le> (100 * of_nat (length (filter (\<lambda>t. status t = Closed \<and> isWin t = Some True) ts))
                / of_nat (length (filter (\<lambda>t. status t = Closed) ts)))
             * (2 / 2 ^ 53 + 1 / 2 ^ 106))
   \<and> (0 < length (filter (\<lambda>t. status t = Closed) ts)
        \<and> length (filter (\<lambda>t. status t = Closed \<and> isWin t = Some True) ts)
            = length (filter (\<lambda>t. status t = Closed) ts)
      \<longrightarrow> winRate ts = 100)
   \<and> (0 < length (filter (\<lambda>t. status t = Closed) ts)
        \<and> length (filter (\<lambda>t. status t = Closed \<and> isWin t = Some True) ts) = 0
      \<longrightarrow> winRate ts = 0)"
proof -
  let ?N = "length (filter (\<lambda>t. status t = Closed) ts)"
  let ?W = "length (filter (\<lambda>t. status t = Closed \<and> isWin t = Some True) ts)"
  have a: "winRate [] = 0" by (simp add: winRate_def closedTrades_def)
  have b: "filter (\<lambda>t. status t = Closed) ts = [] \<longrightarrow> winRate ts = 0"
    by (simp add: winRate_def closedTrades_def)
  have w: "winRate ts = fl (fl (of_nat ?W / of_nat ?N) * 100)" if "0 < ?N"
    using that by (simp add: winRate_def winningTrades_count closedTrades_length)
  have c: "\<bar>winRate ts - 100 * of_nat ?W / of_nat ?N\<bar>
          \<le> (100 * of_nat ?W / of_nat ?N) * (2 / 2 ^ 53 + 1 / 2 ^ 106)" if n: "0 < ?N"
  proof -
    have "(0::rat) \<le> of_nat ?W / of_nat ?N" by simp
    from twice_rounded_error [OF this] show ?thesis
      unfolding w [OF n] by (simp add: mult.commute)
  qed
  have d: "winRate ts = 100" if "0 < ?N \<and> ?W = ?N"
  proof -
    from that have "(of_nat ?W :: rat) / of_nat ?N = 1" by simp
    with that show ?thesis by (simp add: w fl_exact_values)
  qed
  have e: "winRate ts = 0" if "0 < ?N \<and> ?W = 0"
    using that by (simp add: w fl_exact_values)
  from a b w c d e show ?thesis by blast
qed

theorem winRate_rounded_witness:
  "0 < length (filter (\<lambda>t. status t = Closed) [sample_closed, sample_open, sample_loss])
   \<and> winRate [sample_closed, sample_open, sample_loss] = 50
   \<and> filter (\<lambda>t. status t = Closed) [sample_open] = []
   \<and> winRate [sample_open] = 0
   \<and> length (filter (\<lambda>t. status t = Closed \<and> isWin t = Some True) [sample_closed])
       = length (filter (\<lambda>t. status t = Closed) [sample_closed])
   \<and> winRate [sample_closed] = 100
   \<and> length (filter (\<lambda>t. status t = Closed \<and> isWin t = Some True) [sample_loss]) = 0
   \<and> winRate [sample_loss] = 0"
proof -
  let ?ts = "[sample_closed, sample_open, sample_loss]"
  have c: "filter (\<lambda>t. status t = Closed) ?ts = [sample_closed, sample_loss]"
    by (simp add: sample_closed_def sample_open_def sample_loss_def)
  have w: "filter (\<lambda>t. status t = Closed \<and> isWin t = Some True) ?ts = [sample_closed]"
    by (simp add: sample_closed_def sample_open_def sample_loss_def)
  have o: "filter (\<lambda>t. status t = Closed) [sample_open] = []"
    by (simp add: sample_open_def)
  have h: "0 < length (filter (\<lambda>t. status t = Closed) ?ts)" unfolding c by simp
  have half: "fl (fl (1 / 2) * 100) = 50" by code_simp
  from winRate_rounded [of ?ts] h have "winRate ?ts =
          fl (fl (of_nat (length (filter (\<lambda>t. status t = Closed \<and> isWin t = Some True) ?ts))
                  / of_nat (length (filter (\<lambda>t. status t = Closed) ?ts))) * 100)" by blast
  then have r1: "winRate ?ts = 50" unfolding c w by (simp add: half)
  from winRate_rounded [of "[sample_open]"] o have r2: "winRate [sample_open] = 0" by blast
  have c1: "filter (\<lambda>t. status t = Closed) [sample_closed] = [sample_closed]"
    "filter (\<lambda>t. status t = Closed \<and> isWin t = Some True) [sample_closed] = [sample_closed]"
    by (simp_all add: sample_closed_def)
  have c2: "filter (\<lambda>t. status t = Closed) [sample_loss] = [sample_loss]"
    "filter (\<lambda>t. status t = Closed \<and> isWin t = Some True) [sample_loss] = []"
    by (simp_all add: sample_loss_def)
  have h3: "0 < length (filter (\<lambda>t. status t = Closed) [sample_closed])
      \<and> length (filter (\<lambda>t. status t = Closed \<and> isWin t = Some True) [sample_closed])
          = length (filter (\<lambda>t. status t = Closed) [sample_closed])"
    unfolding c1 by simp
  from winRate_rounded [of "[sample_closed]"] h3 have r3: "winRate [sample_closed] = 100"
    by blast
  have h4: "0 < length (filter (\<lambda>t. status t = Closed) [sample_loss])
      \<and> length (filter (\<lambda>t. status t = Closed \<and> isWin t = Some True) [sample_loss]) = 0"
    unfolding c2 by simp
  from winRate_rounded [of "[sample_loss]"] h4 have r4: "winRate [sample_loss] = 0" by blast
  from h r1 o r2 h3 r3 h4 r4 show ?thesis by blast
qed

text \<open>
  C5 as stated fails. In a ledger of twenty closed trades of which eleven are wins,
  \<open>100 * W / N\<close> is 55, and the win rate is the next double above 55 (printed
  \<open>55.00000000000001\<close>): \<open>11 / 20\<close> is not a double, and the double nearest to it times 100
  rounds upwards.
\<close>

theorem winRate_rounding_counterexample:
  "length (closedTrades (replicate 11 sample_closed @ replicate 9 sample_loss)) = 20
   \<and> winningTrades (replicate 11 sample_closed @ replicate 9 sample_loss) = 11
   \<and> (100 * 11 / 20 :: rat) = 55
   \<and> winRate (replicate 11 sample_closed @ replicate 9 sample_loss) = 55 + 1 / 2 ^ 47
   \<and> winRate (replicate 11 sample_closed @ replicate 9 sample_loss) \<noteq> 55"
  by code_simp

section \<open>Analytics: unrealized profit and loss\<close>






section \<open>Analytics: equity curve\<close>













lemma sample_B_from_sheet:
  "parseRow sample_parseFloat 17 1
     [''B'', ''AAPL'', ''n/a'', ''100'', ''10'', ''Pullback'', ''second'', ''closed'',
      ''2024-01-05'', ''110'', ''100'', ''Win'']
   = Inr sample_B"
  by code_simp


section \<open>The forms: status of a saved trade\<close>



lemma handleSubmit_status:
  "status (handleSubmit tradeToEdit now m) = (if isClosing (form m) then Closed else Open)"
  by (simp add: handleSubmit_def Let_def)

lemma handleSubmit_id:
  "trade_id t \<noteq> '''' \<Longrightarrow> trade_id (handleSubmit (Some t) now m) = trade_id t"
  by (simp add: handleSubmit_def Let_def)

lemma isClosing_iff:
  "isClosing f \<longleftrightarrow> f_exitDate f \<noteq> '''' \<and> 0 < f_exitPrice f"
  by (auto simp: isClosing_def)

lemma openModal_exit:
  "f_exitDate (form (openModal (Some t) today)) = or_empty (exitDate t)
   \<and> f_exitPrice (form (openModal (Some t) today)) = or_zero (exitPrice t)"
  by (simp add: openModal_def)

lemma exitSubmit_Some:
  assumes "exitSubmit opens sel d p n = Some t'"
  shows "\<exists>t \<in> set opens. trade_id t = sel \<and> d \<noteq> '''' \<and> 0 < p
           \<and> t' = t\<lparr>status := Closed, exitDate := Some d, exitPrice := Some p,
                     pnl := Some ((p - entryPrice t) * shares t),
                     isWin := Some ((p - entryPrice t) * shares t > 0),
                     trade_notes := (if trade_notes t \<noteq> ''''
                                     then trade_notes t @ [CHR 0x0A, CHR 0x0A]
                                            @ ''Exit Notes: '' @ n
                                     else ''Exit Notes: '' @ n)\<rparr>"
proof (cases "find (\<lambda>t. trade_id t = sel) opens")
  case None
  with assms show ?thesis by (simp add: exitSubmit_def)
next
  case (Some t)
  then have mem: "t \<in> set opens" "trade_id t = sel"
    by (auto simp: find_Some_iff)
  from assms Some have ok: "d \<noteq> ''''" "0 < p"
    by (auto simp: exitSubmit_def split: if_splits)
  with assms Some have "t' = t\<lparr>status := Closed, exitDate := Some d, exitPrice := Some p,
                     pnl := Some ((p - entryPrice t) * shares t),
                     isWin := Some ((p - entryPrice t) * shares t > 0),
                     trade_notes := (if trade_notes t \<noteq> ''''
                                     then trade_notes t @ [CHR 0x0A, CHR 0x0A]
                                            @ ''Exit Notes: '' @ n
                                     else ''Exit Notes: '' @ n)\<rparr>"
    by (simp add: exitSubmit_def Let_def split: if_splits)
  with mem ok show ?thesis by blast
qed




section \<open>The forms: profit and loss of a saved trade\<close>

lemma notes_change_keeps_numbers:
  "f_exitDate (form (handleChange (TextInput NotesField v) m)) = f_exitDate (form m)
   \<and> f_exitPrice (form (handleChange (TextInput NotesField v) m)) = f_exitPrice (form m)
   \<and> f_entryPrice (form (handleChange (TextInput NotesField v) m)) = f_entryPrice (form m)
   \<and> f_shares (form (handleChange (TextInput NotesField v) m)) = f_shares (form m)"
  by simp

lemma notes_changes_keep_numbers:
  "set changes \<subseteq> range (TextInput NotesField) \<Longrightarrow>
     f_exitDate (form (applyChanges changes m)) = f_exitDate (form m)
     \<and> f_exitPrice (form (applyChanges changes m)) = f_exitPrice (form m)
     \<and> f_entryPrice (form (applyChanges changes m)) = f_entryPrice (form m)
     \<and> f_shares (form (applyChanges changes m)) = f_shares (form m)"
  unfolding applyChanges_def
proof (induction changes arbitrary: m)
  case Nil
  show ?case by simp
next
  case (Cons c changes)
  then obtain v where c: "c = TextInput NotesField v" by auto
  from Cons.prems have "set changes \<subseteq> range (TextInput NotesField)" by simp
  from Cons.IH [OF this, of "handleChange c m"] show ?case
    unfolding c by simp
qed

lemma openModal_numbers:
  "f_entryPrice (form (openModal (Some t) today)) = entryPrice t
   \<and> f_shares (form (openModal (Some t) today)) = shares t"
  by (simp add: openModal_def)

lemma handleSubmit_pnl:
  "pnl (handleSubmit tradeToEdit now m) =
     (if isClosing (form m)
      then Some ((f_exitPrice (form m) - f_entryPrice (form m)) * f_shares (form m))
      else None)
   \<and> isWin (handleSubmit tradeToEdit now m) =
     (if isClosing (form m)
      then Some ((f_exitPrice (form m) - f_entryPrice (form m)) * f_shares (form m) > 0)
      else None)"
  by (simp add: handleSubmit_def Let_def)

lemma handleSubmit_closedByFormula:
  "status (handleSubmit tradeToEdit now m) = Closed \<Longrightarrow>
     closedByFormula (handleSubmit tradeToEdit now m)"
  by (simp add: handleSubmit_def Let_def closedByFormula_def isClosing_iff split: if_splits)

lemma exitSubmit_closedByFormula:
  "exitSubmit opens sel d p n = Some t' \<Longrightarrow> closedByFormula t'"
  by (drule exitSubmit_Some) (auto simp: closedByFormula_def)

lemma closedByFormula_fields:
  assumes "closedByFormula t"
  obtains d p where "exitDate t = Some d" "d \<noteq> ''''" "exitPrice t = Some p" "0 < p"
    "pnl t = Some ((p - entryPrice t) * shares t)"
    "isWin t = Some ((p - entryPrice t) * shares t > 0)" "status t = Closed"
  using assms by (auto simp: closedByFormula_def split: option.splits)

lemma notes_edit_same_pnl:
  assumes "closedByFormula t" and "set changes \<subseteq> range (TextInput NotesField)"
  shows "pnl (editTrade t changes today now) = pnl t
         \<and> isWin (editTrade t changes today now) = isWin t
         \<and> status (editTrade t changes today now) = Closed"
proof -
  from assms(1) obtain d p where f: "exitDate t = Some d" "d \<noteq> ''''" "exitPrice t = Some p"
    "0 < p" "pnl t = Some ((p - entryPrice t) * shares t)"
    "isWin t = Some ((p - entryPrice t) * shares t > 0)"
    by (rule closedByFormula_fields)
  let ?m = "applyChanges changes (openModal (Some t) today)"
  have m: "f_exitDate (form ?m) = d" "f_exitPrice (form ?m) = p"
    "f_entryPrice (form ?m) = entryPrice t" "f_shares (form ?m) = shares t"
    using notes_changes_keep_numbers [OF assms(2), of "openModal (Some t) today"] f
    by (simp_all add: openModal_exit openModal_numbers or_empty_def or_zero_def)
  with f have c: "isClosing (form ?m)" by (simp add: isClosing_iff)
  show ?thesis
    unfolding editTrade_def using c m f
    by (simp add: handleSubmit_pnl handleSubmit_status)
qed

lemma handleSaveTrade_at_first:
  assumes i: "i < length ts" and same: "trade_id t = trade_id (ts ! i)"
    and first: "\<forall>j<i. trade_id (ts ! j) \<noteq> trade_id (ts ! i)"
  shows "handleSaveTrade t ts = ts[i := t]"
proof -
  have "findIndex (\<lambda>x. trade_id x = trade_id t) ts \<noteq> - 1"
    using i same by (auto simp: findIndex_none)
  from handleSaveTrade_found [OF this]
  obtain k where k: "k < length ts" "trade_id (ts ! k) = trade_id t"
      "\<forall>j<k. trade_id (ts ! j) \<noteq> trade_id t" "handleSaveTrade t ts = ts[k := t]"
    by blast
  have "\<not> k < i" using first k(2) same by auto
  moreover have "\<not> i < k" using k(3) same by auto
  ultimately have "k = i" by simp
  with k(4) show ?thesis by simp
qed

text \<open>
  C4, as amended. A trade closed through either form stores the exit date, a positive
  exit price, \<open>pnl = (exitPrice - entryPrice) * shares\<close> and \<open>isWin = (pnl > 0)\<close>. An edit
  of such a trade that changes only the notes does recompute \<open>pnl\<close> and \<open>isWin\<close>, from the
  unchanged prices and shares, and so the trade it hands to the ledger carries the values
  stored before; that trade is closed. The ledger (for a trade with a non-empty id) puts
  it at the position of the first entry with the edited trade's id and changes no other
  position. When no earlier entry shares the id of the edited row, as in every ledger with
  distinct ids, that position is the edited row: its \<open>pnl\<close> and \<open>isWin\<close> are as before and
  every other entry is untouched. When an earlier entry shares the id, it is that earlier
  entry that is replaced.
\<close>

theorem notes_edit_preserves_pnl:
  "(status (handleSubmit tradeToEdit now m) = Closed
      \<longrightarrow> closedByFormula (handleSubmit tradeToEdit now m))
   \<and> (exitSubmit opens sel d p x = Some t' \<longrightarrow> closedByFormula t')
   \<and> (closedByFormula t \<and> set changes \<subseteq> range (TextInput NotesField)
      \<longrightarrow> pnl (editTrade t changes today now) = pnl t
          \<and> isWin (editTrade t changes today now) = isWin t
          \<and> status (editTrade t changes today now) = Closed)
   \<and> (i < length ts \<and> closedByFormula (ts ! i) \<and> trade_id (ts ! i) \<noteq> ''''
        \<and> (\<forall>j<i. trade_id (ts ! j) \<noteq> trade_id (ts ! i))
        \<and> set changes \<subseteq> range (TextInput NotesField)
      \<longrightarrow> length (perform (EditPosition i changes today now) ts) = length ts
          \<and> pnl (perform (EditPosition i changes today now) ts ! i) = pnl (ts ! i)
          \<and> isWin (perform (EditPosition i changes today now) ts ! i) = isWin (ts ! i)
          \<and> (\<forall>j<length ts. j \<noteq> i
                \<longrightarrow> perform (EditPosition i changes today now) ts ! j = ts ! j))
   \<and> (i < length ts \<and> closedByFormula (ts ! i) \<and> trade_id (ts ! i) \<noteq> ''''
        \<and> set changes \<subseteq> range (TextInput NotesField)
      \<longrightarrow> (\<exists>k \<le> i. trade_id (ts ! k) = trade_id (ts ! i)
               \<and> (\<forall>j<k. trade_id (ts ! j) \<noteq> trade_id (ts ! i))
               \<and> perform (EditPosition i changes today now) ts
                   = ts[k := editTrade (ts ! i) changes today now]
               \<and> pnl (perform (EditPosition i changes today now) ts ! k) = pnl (ts ! i)
               \<and> isWin (perform (EditPosition i changes today now) ts ! k) = isWin (ts ! i)
               \<and> (\<forall>j<length ts. j \<noteq> k
                     \<longrightarrow> perform (EditPosition i changes today now) ts ! j = ts ! j)))"
proof -
  have a: "status (handleSubmit tradeToEdit now m) = Closed
      \<longrightarrow> closedByFormula (handleSubmit tradeToEdit now m)"
    by (simp add: handleSubmit_closedByFormula)
  have b: "exitSubmit opens sel d p x = Some t' \<longrightarrow> closedByFormula t'"
    by (simp add: exitSubmit_closedByFormula)
  have c: "closedByFormula t \<and> set changes \<subseteq> range (TextInput NotesField)
      \<longrightarrow> pnl (editTrade t changes today now) = pnl t
          \<and> isWin (editTrade t changes today now) = isWin t
          \<and> status (editTrade t changes today now) = Closed"
    using notes_edit_same_pnl by blast
  have d: "length (perform (EditPosition i changes today now) ts) = length ts
          \<and> pnl (perform (EditPosition i changes today now) ts ! i) = pnl (ts ! i)
          \<and> isWin (perform (EditPosition i changes today now) ts ! i) = isWin (ts ! i)
          \<and> (\<forall>j<length ts. j \<noteq> i
                \<longrightarrow> perform (EditPosition i changes today now) ts ! j = ts ! j)"
    if h: "i < length ts \<and> closedByFormula (ts ! i) \<and> trade_id (ts ! i) \<noteq> ''''
        \<and> (\<forall>j<i. trade_id (ts ! j) \<noteq> trade_id (ts ! i))
        \<and> set changes \<subseteq> range (TextInput NotesField)"
  proof -
    let ?e = "editTrade (ts ! i) changes today now"
    from h have id: "trade_id ?e = trade_id (ts ! i)"
      by (simp add: editTrade_def handleSubmit_id)
    from h have same: "pnl ?e = pnl (ts ! i) \<and> isWin ?e = isWin (ts ! i)"
      using notes_edit_same_pnl [of "ts ! i" changes today now] by blast
    from h id have "handleSaveTrade ?e ts = ts[i := ?e]"
      by (intro handleSaveTrade_at_first) simp_all
    with h have "perform (EditPosition i changes today now) ts = ts[i := ?e]" by simp
    with h same show ?thesis by simp
  qed
  have e: "\<exists>k \<le> i. trade_id (ts ! k) = trade_id (ts ! i)
               \<and> (\<forall>j<k. trade_id (ts ! j) \<noteq> trade_id (ts ! i))
               \<and> perform (EditPosition i changes today now) ts
                   = ts[k := editTrade (ts ! i) changes today now]
               \<and> pnl (perform (EditPosition i changes today now) ts ! k) = pnl (ts ! i)
               \<and> isWin (perform (EditPosition i changes today now) ts ! k) = isWin (ts ! i)
               \<and> (\<forall>j<length ts. j \<noteq> k
                     \<longrightarrow> perform (EditPosition i changes today now) ts ! j = ts ! j)"
    if h: "i < length ts \<and> closedByFormula (ts ! i) \<and> trade_id (ts ! i) \<noteq> ''''
        \<and> set changes \<subseteq> range (TextInput NotesField)"
  proof -
    let ?e = "editTrade (ts ! i) changes today now"
    from h have id: "trade_id ?e = trade_id (ts ! i)"
      by (simp add: editTrade_def handleSubmit_id)
    from h have same: "pnl ?e = pnl (ts ! i) \<and> isWin ?e = isWin (ts ! i)"
      using notes_edit_same_pnl [of "ts ! i" changes today now] by blast
    have "findIndex (\<lambda>x. trade_id x = trade_id ?e) ts \<noteq> - 1"
      using h id by (auto simp: findIndex_none)
    from handleSaveTrade_found [OF this]
    obtain k where k: "k < length ts" "trade_id (ts ! k) = trade_id ?e"
        "\<forall>j<k. trade_id (ts ! j) \<noteq> trade_id ?e" "handleSaveTrade ?e ts = ts[k := ?e]"
      by blast
    have "\<not> i < k" using k(3) id by auto
    then have ki: "k \<le> i" by simp
    from h k(4) have p: "perform (EditPosition i changes today now) ts = ts[k := ?e]" by simp
    from p k(1) same have v: "pnl (perform (EditPosition i changes today now) ts ! k) = pnl (ts ! i)"
        "isWin (perform (EditPosition i changes today now) ts ! k) = isWin (ts ! i)"
      by simp_all
    from p have o: "\<forall>j<length ts. j \<noteq> k
        \<longrightarrow> perform (EditPosition i changes today now) ts ! j = ts ! j"
      by simp
    from ki k(2,3) id p v o show ?thesis by auto
  qed
  from a b c d e show ?thesis by blast
qed

theorem notes_edit_preserves_pnl_witness:
  "status (handleSubmit None ''2024-02-01T10:00:00.000Z''
       (applyChanges [TextInput TickerField ''TSLA'', NumericInput EntryPriceField (Some 200),
                      NumericInput SharesField (Some 5), TextInput ExitDateField ''2024-02-05'',
                      NumericInput ExitPriceField (Some 220)]
          (openModal None ''2024-02-01''))) = Closed
   \<and> closedByFormula (handleSubmit None ''2024-02-01T10:00:00.000Z''
       (applyChanges [TextInput TickerField ''TSLA'', NumericInput EntryPriceField (Some 200),
                      NumericInput SharesField (Some 5), TextInput ExitDateField ''2024-02-05'',
                      NumericInput ExitPriceField (Some 220)]
          (openModal None ''2024-02-01'')))
   \<and> exitSubmit [sample_open] ''t1'' ''2024-02-05'' 220 ''target'' \<noteq> None
   \<and> closedByFormula sample_closed
   \<and> set [TextInput NotesField ''held too long''] \<subseteq> range (TextInput NotesField)
   \<and> pnl (editTrade sample_closed [TextInput NotesField ''held too long'']
        ''2024-02-06'' ''2024-02-06T09:00:00.000Z'') = Some 100
   \<and> isWin (editTrade sample_closed [TextInput NotesField ''held too long'']
        ''2024-02-06'' ''2024-02-06T09:00:00.000Z'') = Some True
   \<and> 1 < length [sample_open, sample_closed]
   \<and> pnl (perform (EditPosition 1 [TextInput NotesField ''held too long'']
             ''2024-02-06'' ''2024-02-06T09:00:00.000Z'') [sample_open, sample_closed] ! 1)
       = Some 100
   \<and> perform (EditPosition 1 [TextInput NotesField ''held too long'']
         ''2024-02-06'' ''2024-02-06T09:00:00.000Z'') [sample_open, sample_closed] ! 0
       = sample_open
   \<and> 1 < length [sample_closed, sample_closed]
   \<and> length (perform (EditPosition 1 [TextInput NotesField ''held too long'']
         ''2024-02-06'' ''2024-02-06T09:00:00.000Z'') [sample_closed, sample_closed]) = 2"
proof -
  let ?m = "applyChanges [TextInput TickerField ''TSLA'', NumericInput EntryPriceField (Some 200),
                      NumericInput SharesField (Some 5), TextInput ExitDateField ''2024-02-05'',
                      NumericInput ExitPriceField (Some 220)]
          (openModal None ''2024-02-01'')"
  let ?cs = "[TextInput NotesField ''held too long'']"
  let ?ts = "[sample_open, sample_closed]"
  note inst = notes_edit_preserves_pnl [where tradeToEdit = None
      and now = "''2024-02-06T09:00:00.000Z''" and today = "''2024-02-06''"
      and t = sample_closed and changes = ?cs and i = 1 and ts = ?ts
      and opens = "[sample_open]" and sel = "''t1''" and d = "''2024-02-05''" and p = 220
      and x = "''target''"]
  have h1: "status (handleSubmit None ''2024-02-01T10:00:00.000Z'' ?m) = Closed"
    by (simp add: handleSubmit_status isClosing_iff applyChanges_def openModal_def
        emptyTrade_def or_zero_def)
  from notes_edit_preserves_pnl [where tradeToEdit = None
      and now = "''2024-02-01T10:00:00.000Z''" and m = ?m] h1
  have r1: "closedByFormula (handleSubmit None ''2024-02-01T10:00:00.000Z'' ?m)" by blast
  have "exitSubmit [sample_open] ''t1'' ''2024-02-05'' 220 ''target'' \<noteq> None"
    by (simp add: exitSubmit_def sample_open_def Let_def)
  then obtain t' where h2: "exitSubmit [sample_open] ''t1'' ''2024-02-05'' 220 ''target'' = Some t'"
    by blast
  with inst have r2: "closedByFormula t'" by blast
  have h3: "closedByFormula sample_closed"
    by (simp add: closedByFormula_def sample_closed_def)
  have h4: "set ?cs \<subseteq> range (TextInput NotesField)" by simp
  have v: "pnl sample_closed = Some 100" "isWin sample_closed = Some True"
    by (simp_all add: sample_closed_def)
  from inst h3 h4 v
  have r3: "pnl (editTrade sample_closed ?cs ''2024-02-06'' ''2024-02-06T09:00:00.000Z'') = Some 100"
    "isWin (editTrade sample_closed ?cs ''2024-02-06'' ''2024-02-06T09:00:00.000Z'') = Some True"
    by simp_all
  have h5: "1 < length ?ts \<and> closedByFormula (?ts ! 1) \<and> trade_id (?ts ! 1) \<noteq> ''''
      \<and> (\<forall>j<1. trade_id (?ts ! j) \<noteq> trade_id (?ts ! 1))
      \<and> set ?cs \<subseteq> range (TextInput NotesField)"
    using h3 by (simp add: sample_closed_def sample_open_def)
  from inst h5
  have r4: "pnl (perform (EditPosition 1 ?cs ''2024-02-06'' ''2024-02-06T09:00:00.000Z'') ?ts ! 1)
              = pnl (?ts ! 1)"
    and r5: "\<forall>j<length ?ts. j \<noteq> 1 \<longrightarrow>
       perform (EditPosition 1 ?cs ''2024-02-06'' ''2024-02-06T09:00:00.000Z'') ?ts ! j = ?ts ! j"
    by blast+
  from r4 v have r4': "pnl (perform (EditPosition 1 ?cs ''2024-02-06'' ''2024-02-06T09:00:00.000Z'') ?ts ! 1)
              = Some 100" by simp
  from r5 have r5': "perform (EditPosition 1 ?cs ''2024-02-06'' ''2024-02-06T09:00:00.000Z'') ?ts ! 0
       = sample_open" by simp
  have h6: "1 < length [sample_closed, sample_closed]
      \<and> closedByFormula ([sample_closed, sample_closed] ! 1)
      \<and> trade_id ([sample_closed, sample_closed] ! 1) \<noteq> ''''
      \<and> set ?cs \<subseteq> range (TextInput NotesField)"
    using h3 by (simp add: sample_closed_def)
  from notes_edit_preserves_pnl [where i = 1 and ts = "[sample_closed, sample_closed]"
      and changes = ?cs and today = "''2024-02-06''" and now = "''2024-02-06T09:00:00.000Z''"] h6
  obtain k where "perform (EditPosition 1 ?cs ''2024-02-06'' ''2024-02-06T09:00:00.000Z'')
         [sample_closed, sample_closed]
       = [sample_closed, sample_closed]
           [k := editTrade ([sample_closed, sample_closed] ! 1) ?cs ''2024-02-06''
                   ''2024-02-06T09:00:00.000Z'']"
    by blast
  then have "length (perform (EditPosition 1 ?cs ''2024-02-06'' ''2024-02-06T09:00:00.000Z'')
         [sample_closed, sample_closed])
       = length ([sample_closed, sample_closed]
           [k := editTrade ([sample_closed, sample_closed] ! 1) ?cs ''2024-02-06''
                   ''2024-02-06T09:00:00.000Z''])"
    by (rule arg_cong)
  then have r6: "length (perform (EditPosition 1 ?cs ''2024-02-06'' ''2024-02-06T09:00:00.000Z'')
         [sample_closed, sample_closed]) = 2"
    unfolding length_list_update by simp
  from h1 r1 h2 h3 h4 r3 r4' r5' h6 r6 show ?thesis by simp
qed

text \<open>The sheet reader turns the sample rows into two trades and one warning; the
  closed one carries the P/L and Result of its row, not what the prices give.\<close>

lemma sample_rows_fetched:
  "fetchTradesFromSheet sample_parseFloat 17 True (Some ''sheet-1'') (Inr (Some sample_rows))
     = Inr ([sample_imported, sample_imported_open], [MissingEssentialData 3])"
  by code_simp

text \<open>
  C4 as stated fails for a closed trade whose stored \<open>pnl\<close> and \<open>isWin\<close> are not what the
  closing formula gives, such as \<open>sample_imported\<close>, which the sheet import puts in the
  ledger: editing only its notes replaces \<open>pnl = 50\<close>, \<open>isWin = false\<close> by the recomputed
  \<open>pnl = 100\<close>, \<open>isWin = true\<close>.
\<close>

theorem notes_edit_recomputes_counterexample:
  "map status [sample_imported] = [Closed]
   \<and> map pnl [sample_imported] = [Some 50]
   \<and> map isWin [sample_imported] = [Some False]
   \<and> map trade_notes (perform (EditPosition 0 [TextInput NotesField ''reviewed'']
        ''2024-02-06'' ''2024-02-06T09:00:00.000Z'') [sample_imported]) = [''reviewed'']
   \<and> map pnl (perform (EditPosition 0 [TextInput NotesField ''reviewed'']
        ''2024-02-06'' ''2024-02-06T09:00:00.000Z'') [sample_imported]) = [Some 100]
   \<and> map isWin (perform (EditPosition 0 [TextInput NotesField ''reviewed'']
        ''2024-02-06'' ''2024-02-06T09:00:00.000Z'') [sample_imported]) = [Some True]"
  by code_simp

section \<open>CSV export: reading a quoted field back\<close>

lemma readQuoted_close:
  "rest = [] \<or> hd rest \<noteq> CHR 0x22 \<Longrightarrow> readQuoted (CHR 0x22 # rest) = Some ('''', rest)"
  by (cases rest) auto

lemma readQuoted_doubled:
  "readQuoted (CHR 0x22 # CHR 0x22 # xs) = map_option (\<lambda>(f, r). (CHR 0x22 # f, r)) (readQuoted xs)"
  by simp

lemma readQuoted_plain:
  "c \<noteq> CHR 0x22 \<Longrightarrow> xs \<noteq> [] \<Longrightarrow>
     readQuoted (c # xs) = map_option (\<lambda>(f, r). (c # f, r)) (readQuoted xs)"
  by (cases xs) auto

lemma flatten_escape_Cons:
  "flattenNewlines (escapeQuotes (c # s)) =
     (if c = CHR 0x22 then [CHR 0x22, CHR 0x22]
      else [if c = CHR 0x0A then CHR 0x20 else c]) @ flattenNewlines (escapeQuotes s)"
  by (simp add: flattenNewlines_def escapeQuotes_def)

lemma readQuoted_escaped:
  assumes "rest = [] \<or> hd rest \<noteq> CHR 0x22"
  shows "readQuoted (flattenNewlines (escapeQuotes s) @ CHR 0x22 # rest)
           = Some (flattenNewlines s, rest)"
proof (induction s)
  case Nil
  from assms show ?case
    by (simp add: flattenNewlines_def escapeQuotes_def readQuoted_close del: readQuoted.simps)
next
  case (Cons c s)
  let ?tail = "flattenNewlines (escapeQuotes s) @ CHR 0x22 # rest"
  show ?case
  proof (cases "c = CHR 0x22")
    case True
    have "readQuoted (flattenNewlines (escapeQuotes (c # s)) @ CHR 0x22 # rest)
            = readQuoted (CHR 0x22 # CHR 0x22 # ?tail)"
      using True by (simp add: flatten_escape_Cons del: readQuoted.simps)
    also have "\<dots> = Some (CHR 0x22 # flattenNewlines s, rest)"
      unfolding readQuoted_doubled Cons.IH by simp
    also have "CHR 0x22 # flattenNewlines s = flattenNewlines (c # s)"
      using True by (simp add: flattenNewlines_def)
    finally show ?thesis .
  next
    case False
    let ?c = "if c = CHR 0x0A then CHR 0x20 else c"
    have ne: "?c \<noteq> CHR 0x22" using False by simp
    have "readQuoted (flattenNewlines (escapeQuotes (c # s)) @ CHR 0x22 # rest)
            = readQuoted (?c # ?tail)"
      using False by (simp add: flatten_escape_Cons del: readQuoted.simps)
    also have "\<dots> = map_option (\<lambda>(f, r). (?c # f, r)) (readQuoted ?tail)"
      by (rule readQuoted_plain [OF ne]) simp
    also have "\<dots> = Some (?c # flattenNewlines s, rest)"
      unfolding Cons.IH by simp
    also have "?c # flattenNewlines s = flattenNewlines (c # s)"
      by (simp add: flattenNewlines_def)
    finally show ?thesis .
  qed
qed

lemma readField_quoteField:
  "rest = [] \<or> hd rest \<noteq> CHR 0x22 \<Longrightarrow>
     readField (quoteField s @ rest) = Some (flattenNewlines s, rest)"
  by (simp add: readField_def quoteField_def readQuoted_escaped del: readQuoted.simps)

lemma flattenNewlines_id: "flattenNewlines s = s \<longleftrightarrow> CHR 0x0A \<notin> set s"
  unfolding flattenNewlines_def by (induction s) auto

text \<open>The exported row: nine values, the quoted notes, then the pnl and isWin columns.\<close>

lemma csvRow_notes_position:
  "csvRow num t =
     join '','' (map (\<lambda>fieldName. csvValue num (fieldValue fieldName t)) (take 9 header))
       @ '','' @ quoteField (trade_notes t)
       @ '','' @ csvValue num (optional Num (pnl t))
       @ '','' @ csvValue num (optional Bool (isWin t))"
  by (simp add: csvRow_def header_def fieldValue_def csvValue_def)

lemma readField_plain:
  assumes "\<forall>c \<in> set w. c \<noteq> CHR '','' \<and> c \<noteq> CHR 0x22 \<and> c \<noteq> CHR 0x0A"
    and "rest = [] \<or> hd rest = CHR '','' \<or> hd rest = CHR 0x0A"
  shows "readField (w @ rest) = Some (w, rest)"
proof -
  let ?P = "\<lambda>x. x \<noteq> CHR '','' \<and> x \<noteq> CHR 0x0A"
  have stop: "takeWhile ?P rest = []" "dropWhile ?P rest = rest"
    using assms(2) by (cases rest; auto)+
  have tk: "takeWhile ?P (w @ rest) = w"
    using assms(1) stop by (simp add: takeWhile_append2)
  have dr: "dropWhile ?P (w @ rest) = rest"
    using assms(1) stop by (simp add: dropWhile_append2)
  show ?thesis
  proof (cases "w @ rest")
    case Nil
    then show ?thesis by (simp add: readField_def)
  next
    case (Cons c cs)
    have "c \<noteq> CHR 0x22"
    proof (cases w)
      case Nil
      with Cons assms(2) show ?thesis by auto
    next
      case (Cons a w')
      with \<open>w @ rest = c # cs\<close> assms(1) show ?thesis by auto
    qed
    with Cons tk dr show ?thesis by (simp add: readField_def)
  qed
qed

lemma readField_csvValue:
  assumes "plainNumbers num" and "rest = [] \<or> hd rest = CHR '','' \<or> hd rest = CHR 0x0A"
  shows "readField (csvValue num v @ rest) = Some (readBack num v, rest)"
proof (cases v)
  case Undefined
  with readField_plain [of "[]" rest] assms(2) show ?thesis
    by (simp add: csvValue_def readBack_def)
next
  case (Str s)
  from assms(2) have "rest = [] \<or> hd rest \<noteq> CHR 0x22" by auto
  with Str show ?thesis
    by (simp add: csvValue_def readBack_def readField_quoteField)
next
  case (Num n)
  from assms(1) have "\<forall>c \<in> set (num n). c \<noteq> CHR '','' \<and> c \<noteq> CHR 0x22 \<and> c \<noteq> CHR 0x0A"
    by (simp add: plainNumbers_def)
  from readField_plain [OF this assms(2)] Num show ?thesis
    by (simp add: csvValue_def readBack_def)
next
  case (Bool b)
  have "\<forall>c \<in> set (if b then ''true'' else ''false'').
          c \<noteq> CHR '','' \<and> c \<noteq> CHR 0x22 \<and> c \<noteq> CHR 0x0A"
    by simp
  from readField_plain [OF this assms(2)] Bool show ?thesis
    by (simp add: csvValue_def readBack_def)
qed

lemma readFields_join:
  assumes "plainNumbers num"
  shows "vs \<noteq> [] \<Longrightarrow> length vs \<le> n \<Longrightarrow>
     readFields n (join '','' (map (csvValue num) vs)) = Some (map (readBack num) vs)"
proof (induction vs arbitrary: n)
  case Nil
  then show ?case by simp
next
  case (Cons v vs)
  from Cons.prems obtain n' where n: "n = Suc n'" "length vs \<le> n'"
    by (cases n) auto
  show ?case
  proof (cases vs)
    case Nil
    from readField_csvValue [OF assms, of "[]" v]
    have "readField (csvValue num v) = Some (readBack num v, [])"
      by simp
    with Nil n show ?thesis by simp
  next
    case (Cons w ws)
    let ?tail = "join '','' (map (csvValue num) vs)"
    have "readField (csvValue num v @ CHR '','' # ?tail) = Some (readBack num v, CHR '','' # ?tail)"
      by (rule readField_csvValue [OF assms]) simp
    moreover have "readFields n' ?tail = Some (map (readBack num) vs)"
      using Cons n by (intro Cons.IH) simp_all
    ultimately show ?thesis using Cons n by simp
  qed
qed

lemma join_length: "sep \<noteq> [] \<Longrightarrow> length xs \<le> Suc (length (join sep xs))"
proof (induction sep xs rule: join.induct)
  case (3 sep x y ys)
  from 3 have a: "length ys \<le> length (join sep (y # ys))" by simp
  from 3 have b: "Suc 0 \<le> length sep" by (cases sep) simp_all
  have c: "length (x # y # ys) = Suc (Suc (length ys))" by simp
  have d: "length (join sep (x # y # ys))
             = length x + length sep + length (join sep (y # ys))"
    by simp
  from a b show ?case unfolding c d by linarith
qed simp_all

lemma readRow_csvRow:
  assumes "plainNumbers num"
  shows "readRow (csvRow num t)
           = Some (map (\<lambda>fieldName. readBack num (fieldValue fieldName t)) header)"
proof -
  let ?vs = "map (\<lambda>fieldName. fieldValue fieldName t) header"
  have row: "csvRow num t = join '','' (map (csvValue num) ?vs)"
    by (simp add: csvRow_def comp_def)
  have ne: "?vs \<noteq> []" by (simp add: header_def)
  have "length (map (csvValue num) ?vs) \<le> Suc (length (join '','' (map (csvValue num) ?vs)))"
    by (rule join_length) simp
  then have le: "length ?vs \<le> Suc (length (csvRow num t))" by (simp add: row)
  from readFields_join [OF assms ne le] show ?thesis
    by (simp add: readRow_def row comp_def)
qed

lemma notesRead_csvRow:
  assumes "plainNumbers num"
  shows "notesRead (csvRow num t) = Some (flattenNewlines (trade_notes t))"
  by (simp add: notesRead_def readRow_csvRow [OF assms] header_def readBack_def fieldValue_def)

text \<open>
  C8, as amended. A string field is exported between quotes with every embedded quote
  doubled and every newline replaced by a space. Reading the notes column back out of the
  exported row gives the notes with each newline turned into a space: commas and quotes
  come back unchanged, so the round trip is the identity exactly for notes without a
  newline, and it is never the identity for notes that hold one. The same holds for the
  field read on its own, in front of any text that does not start with a quote.
\<close>

theorem csv_notes_read_back:
  "(plainNumbers num \<longrightarrow>
      notesRead (csvRow num t) = Some (flattenNewlines (trade_notes t)))
   \<and> (plainNumbers num \<and> CHR 0x0A \<notin> set (trade_notes t) \<longrightarrow>
      notesRead (csvRow num t) = Some (trade_notes t))
   \<and> (plainNumbers num \<and> CHR 0x0A \<in> set (trade_notes t) \<longrightarrow>
      notesRead (csvRow num t) \<noteq> Some (trade_notes t))
   \<and> (rest = [] \<or> hd rest \<noteq> CHR 0x22 \<longrightarrow>
      readField (csvValue num (fieldValue ''notes'' t) @ rest)
        = Some (flattenNewlines (trade_notes t), rest))
   \<and> (\<exists>before after.
        csvRow num t = before @ csvValue num (fieldValue ''notes'' t) @ '','' @ after)"
proof -
  have v: "csvValue num (fieldValue ''notes'' t) = quoteField (trade_notes t)"
    by (simp add: fieldValue_def csvValue_def)
  have a: "plainNumbers num \<longrightarrow>
      notesRead (csvRow num t) = Some (flattenNewlines (trade_notes t))"
    by (simp add: notesRead_csvRow)
  have b: "plainNumbers num \<and> CHR 0x0A \<notin> set (trade_notes t) \<longrightarrow>
      notesRead (csvRow num t) = Some (trade_notes t)"
    using flattenNewlines_id [of "trade_notes t"] by (simp add: notesRead_csvRow)
  have c: "plainNumbers num \<and> CHR 0x0A \<in> set (trade_notes t) \<longrightarrow>
      notesRead (csvRow num t) \<noteq> Some (trade_notes t)"
    using flattenNewlines_id [of "trade_notes t"] by (simp add: notesRead_csvRow)
  have d: "rest = [] \<or> hd rest \<noteq> CHR 0x22 \<longrightarrow>
      readField (csvValue num (fieldValue ''notes'' t) @ rest)
        = Some (flattenNewlines (trade_notes t), rest)"
    unfolding v by (simp add: readField_quoteField)
  have "csvRow num t =
      (join '','' (map (\<lambda>fieldName. csvValue num (fieldValue fieldName t)) (take 9 header)) @ '','')
       @ csvValue num (fieldValue ''notes'' t) @ '',''
       @ (csvValue num (optional Num (pnl t)) @ '','' @ csvValue num (optional Bool (isWin t)))"
    unfolding v by (simp add: csvRow_notes_position)
  then have e: "\<exists>before after.
        csvRow num t = before @ csvValue num (fieldValue ''notes'' t) @ '','' @ after"
    by blast
  from a b c d e show ?thesis by blast
qed

theorem csv_notes_read_back_witness:
  "plainNumbers sample_numberToString
   \<and> notesRead (csvRow sample_numberToString sample_noted)
       = Some (''gap up, then '' @ [CHR 0x22] @ ''fade'' @ [CHR 0x22] @ '' held'')
   \<and> CHR 0x0A \<notin> set (trade_notes sample_open)
   \<and> notesRead (csvRow sample_numberToString sample_open) = Some ''first''
   \<and> CHR 0x0A \<in> set (trade_notes sample_noted)
   \<and> notesRead (csvRow sample_numberToString sample_noted) \<noteq> Some (trade_notes sample_noted)
   \<and> hd '',,'' \<noteq> CHR 0x22
   \<and> readField (csvValue sample_numberToString (fieldValue ''notes'' sample_noted) @ '',,'')
       = Some (''gap up, then '' @ [CHR 0x22] @ ''fade'' @ [CHR 0x22] @ '' held'', '',,'')"
proof -
  have p: "plainNumbers sample_numberToString"
    by (simp add: plainNumbers_def sample_numberToString_def)
  have h1: "'',,'' = [] \<or> hd '',,'' \<noteq> CHR 0x22" by simp
  have h2: "CHR 0x0A \<notin> set (trade_notes sample_open)" by (simp add: sample_open_def)
  have h3: "CHR 0x0A \<in> set (trade_notes sample_noted)" by (simp add: sample_noted_def)
  have n: "flattenNewlines (trade_notes sample_noted)
      = ''gap up, then '' @ [CHR 0x22] @ ''fade'' @ [CHR 0x22] @ '' held''"
    by (simp add: sample_noted_def flattenNewlines_def)
  have o: "trade_notes sample_open = ''first''" by (simp add: sample_open_def)
  from csv_notes_read_back [of sample_numberToString sample_noted "'',,''"] p h1 h3
  have r1: "notesRead (csvRow sample_numberToString sample_noted)
        = Some (flattenNewlines (trade_notes sample_noted))"
    and r3: "notesRead (csvRow sample_numberToString sample_noted)
        \<noteq> Some (trade_notes sample_noted)"
    and r4: "readField (csvValue sample_numberToString (fieldValue ''notes'' sample_noted) @ '',,'')
        = Some (flattenNewlines (trade_notes sample_noted), '',,'')"
    by blast+
  from csv_notes_read_back [of sample_numberToString sample_open "[]"] p h2
  have r2: "notesRead (csvRow sample_numberToString sample_open) = Some (trade_notes sample_open)"
    by blast
  from p h1 h2 h3 r1 r2 r3 r4 show ?thesis unfolding n o by simp
qed

text \<open>
  C8 as stated fails: the notes of \<open>sample_noted\<close> hold a comma and a newline, and the
  notes read back from the exported row hold a space where the newline was.
\<close>

theorem csv_newline_lost_counterexample:
  "CHR '','' \<in> set (trade_notes sample_noted)
   \<and> CHR 0x0A \<in> set (trade_notes sample_noted)
   \<and> notesRead (csvRow sample_numberToString sample_noted)
       = Some (''gap up, then '' @ [CHR 0x22] @ ''fade'' @ [CHR 0x22] @ '' held'')
   \<and> notesRead (csvRow sample_numberToString sample_noted) \<noteq> Some (trade_notes sample_noted)"
  by code_simp

section \<open>Spreadsheet import: one row\<close>

lemma parseRow_valid:
  assumes "validRow row"
  shows "\<exists>t. parseRow pf now i row = Inr t \<and> ticker t = cell row 1 \<and> entryDate t = cell row 2"
  using assms by (simp add: parseRow_def validRow_def Let_def)

lemma parseRow_invalid:
  assumes "\<not> validRow row"
  shows "parseRow pf now i row
           = Inl (if length row < 4 then MalformedRow (i + 2) else MissingEssentialData (i + 2))"
  using assms by (auto simp: parseRow_def validRow_def Let_def)

lemma parseRow_Inr:
  assumes "parseRow pf now i row = Inr t"
  shows "status t = (if cell row 7 = ''open'' then Open else Closed)"
    and "status t = Closed \<Longrightarrow>
           exitDate t = Some (cell row 8) \<and> exitPrice t = Some (numberCell pf row 9)
           \<and> pnl t = Some (numberCell pf row 10) \<and> isWin t = Some (cell row 11 = ''Win'')"
    and "status t = Open \<Longrightarrow>
           exitDate t = None \<and> exitPrice t = None \<and> pnl t = None \<and> isWin t = None"
  using assms by (auto simp: parseRow_def Let_def split: if_splits)

text \<open>
  C9, as amended. A row the import keeps yields an open trade exactly when its status
  cell is the text \<open>open\<close>; with any other status cell, an empty or absent one included,
  it yields a closed trade. Exit price and P/L need not be present: the closed trade
  takes them from the cells, and \<open>0\<close> where the cell is absent or is not a number; its win
  flag says whether the result cell is \<open>Win\<close>. An open trade carries no exit fields.
\<close>

theorem parseRow_status:
  "(parseRow pf now i row = Inr t \<longrightarrow>
      (status t = Open \<longleftrightarrow> cell row 7 = ''open'')
      \<and> (status t = Closed \<longleftrightarrow> cell row 7 \<noteq> ''open'')
      \<and> (status t = Closed \<longrightarrow>
            exitDate t = Some (cell row 8) \<and> exitPrice t = Some (numberCell pf row 9)
            \<and> pnl t = Some (numberCell pf row 10) \<and> isWin t = Some (cell row 11 = ''Win''))
      \<and> (status t = Open \<longrightarrow>
            exitDate t = None \<and> exitPrice t = None \<and> pnl t = None \<and> isWin t = None))
   \<and> (length row \<le> k \<or> pf (row ! k) = None \<longrightarrow> numberCell pf row k = 0)
   \<and> (length row \<le> k \<longrightarrow> cell row k = '''')"
proof -
  have a: "(status t = Open \<longleftrightarrow> cell row 7 = ''open'')
      \<and> (status t = Closed \<longleftrightarrow> cell row 7 \<noteq> ''open'')
      \<and> (status t = Closed \<longrightarrow>
            exitDate t = Some (cell row 8) \<and> exitPrice t = Some (numberCell pf row 9)
            \<and> pnl t = Some (numberCell pf row 10) \<and> isWin t = Some (cell row 11 = ''Win''))
      \<and> (status t = Open \<longrightarrow>
            exitDate t = None \<and> exitPrice t = None \<and> pnl t = None \<and> isWin t = None)"
    if h: "parseRow pf now i row = Inr t"
    using parseRow_Inr [OF h] by auto
  have b: "length row \<le> k \<or> pf (row ! k) = None \<longrightarrow> numberCell pf row k = 0"
    by (auto simp: numberCell_def or_zero_def)
  have c: "length row \<le> k \<longrightarrow> cell row k = ''''"
    by (simp add: cell_def)
  from a b c show ?thesis by blast
qed

theorem parseRow_status_witness:
  "parseRow sample_parseFloat 17 0 [''a4'', ''AAPL'', ''2024-01-01'', ''100''] = Inr sample_defaulted
   \<and> cell [''a4'', ''AAPL'', ''2024-01-01'', ''100''] 7 \<noteq> ''open''
   \<and> status sample_defaulted = Closed
   \<and> length [''a4'', ''AAPL'', ''2024-01-01'', ''100''] \<le> 10
   \<and> pnl sample_defaulted = Some 0
   \<and> parseRow sample_parseFloat 17 2 (sample_rows ! 2) = Inr sample_imported_open
   \<and> cell (sample_rows ! 2) 7 = ''open''
   \<and> status sample_imported_open = Open
   \<and> pnl sample_imported_open = None"
proof -
  let ?row = "[''a4'', ''AAPL'', ''2024-01-01'', ''100'']"
  have h1: "parseRow sample_parseFloat 17 0 ?row = Inr sample_defaulted" by code_simp
  have h2: "parseRow sample_parseFloat 17 2 (sample_rows ! 2) = Inr sample_imported_open"
    by code_simp
  have l: "length ?row \<le> 10" by simp
  have c1: "cell ?row 7 \<noteq> ''open''" by (simp add: cell_def)
  have c2: "cell (sample_rows ! 2) 7 = ''open''" by (simp add: cell_def sample_rows_def)
  note i1 = parseRow_status [of sample_parseFloat 17 0 ?row sample_defaulted 10]
  note i2 = parseRow_status [of sample_parseFloat 17 2 "sample_rows ! 2" sample_imported_open 10]
  from i1 h1 c1 have s1: "status sample_defaulted = Closed" by blast
  from i1 l have "numberCell sample_parseFloat ?row 10 = 0" by blast
  with i1 h1 s1 have p1: "pnl sample_defaulted = Some 0" by simp
  from i2 h2 c2 have s2: "status sample_imported_open = Open" by blast
  with i2 h2 have p2: "pnl sample_imported_open = None" by blast
  from h1 c1 s1 l p1 h2 c2 s2 p2 show ?thesis by blast
qed

text \<open>
  C9 as stated fails: a row of four cells has no status cell, no exit price and no P/L,
  and the import turns it into a closed trade with exit price \<open>0\<close> and pnl \<open>0\<close>.
\<close>

theorem sheet_row_closed_by_default_counterexample:
  "length [''a4'', ''AAPL'', ''2024-01-01'', ''100''] = 4
   \<and> parseRow sample_parseFloat 17 0 [''a4'', ''AAPL'', ''2024-01-01'', ''100'']
       = Inr sample_defaulted
   \<and> status sample_defaulted = Closed
   \<and> exitPrice sample_defaulted = Some 0
   \<and> pnl sample_defaulted = Some 0"
  by code_simp

section \<open>Spreadsheet import: all rows\<close>

lemma rowResults_Nil: "rowResults pf now k [] = []"
  by (simp add: rowResults_def)

lemma rowResults_Cons:
  "rowResults pf now k (row # rows) = parseRow pf now k row # rowResults pf now (Suc k) rows"
proof -
  have "[k ..< k + length (row # rows)] = k # [Suc k ..< Suc k + length rows]"
    by (subst upt_rec) simp
  then show ?thesis unfolding rowResults_def by simp
qed

lemma rowResults_length: "length (rowResults pf now k rows) = length rows"
  by (simp add: rowResults_def)

lemma rowResults_nth:
  "i < length rows \<Longrightarrow> rowResults pf now k rows ! i = parseRow pf now (k + i) (rows ! i)"
  by (simp add: rowResults_def)

lemma forEachRow_results:
  "forEachRow pf now k rows (ts, ws) =
     (ts @ rights (rowResults pf now k rows), ws @ lefts (rowResults pf now k rows))"
proof (induction rows arbitrary: k ts ws)
  case Nil
  show ?case by (simp add: rowResults_Nil)
next
  case (Cons row rows)
  show ?case
    by (cases "parseRow pf now k row") (simp_all add: Cons.IH rowResults_Cons)
qed

lemma lefts_member: "Inl w \<in> set rs \<Longrightarrow> w \<in> set (lefts rs)"
  by (induction rs rule: lefts.induct) auto

lemma rights_member: "Inr t \<in> set rs \<Longrightarrow> t \<in> set (rights rs)"
  by (induction rs rule: rights.induct) auto

lemma rights_rowResults_length:
  "length (rights (rowResults pf now k rows)) = length (filter validRow rows)"
proof (induction rows arbitrary: k)
  case Nil
  show ?case by (simp add: rowResults_Nil)
next
  case (Cons row rows)
  show ?case
  proof (cases "validRow row")
    case True
    from parseRow_valid [OF True, of pf now k] obtain t where "parseRow pf now k row = Inr t"
      by blast
    with True show ?thesis by (simp add: rowResults_Cons Cons.IH)
  next
    case False
    from parseRow_invalid [OF False, of pf now k] False show ?thesis
      by (simp add: rowResults_Cons Cons.IH)
  qed
qed

lemma fetch_results:
  "sid \<noteq> '''' \<Longrightarrow>
   fetchTradesFromSheet pf now True (Some sid) (Inr (Some rows))
     = Inr (rights (rowResults pf now 0 rows), lefts (rowResults pf now 0 rows))"
  by (simp add: fetchTradesFromSheet_def forEachRow_results)

lemma rights_iff: "t \<in> set (rights rs) \<longleftrightarrow> Inr t \<in> set rs"
  by (induction rs rule: rights.induct) auto

lemma rights_rowResults_iff:
  "t \<in> set (rights (rowResults pf now 0 rows))
     \<longleftrightarrow> (\<exists>i < length rows. validRow (rows ! i) \<and> parseRow pf now i (rows ! i) = Inr t)"
proof
  assume "t \<in> set (rights (rowResults pf now 0 rows))"
  then have "Inr t \<in> set (rowResults pf now 0 rows)" by (simp add: rights_iff)
  then obtain i where i: "i < length rows" "rowResults pf now 0 rows ! i = Inr t"
    by (auto simp: in_set_conv_nth rowResults_length)
  then have p: "parseRow pf now i (rows ! i) = Inr t" by (simp add: rowResults_nth)
  have "validRow (rows ! i)"
  proof (rule ccontr)
    assume "\<not> validRow (rows ! i)"
    from parseRow_invalid [OF this, of pf now i] p show False by simp
  qed
  with i p show "\<exists>i < length rows. validRow (rows ! i) \<and> parseRow pf now i (rows ! i) = Inr t"
    by blast
next
  assume "\<exists>i < length rows. validRow (rows ! i) \<and> parseRow pf now i (rows ! i) = Inr t"
  then obtain i where i: "i < length rows" "parseRow pf now i (rows ! i) = Inr t" by blast
  then have "rowResults pf now 0 rows ! i = Inr t" by (simp add: rowResults_nth)
  moreover from i have "rowResults pf now 0 rows ! i \<in> set (rowResults pf now 0 rows)"
    by (simp add: rowResults_length)
  ultimately show "t \<in> set (rights (rowResults pf now 0 rows))" by (simp add: rights_iff)
qed

text \<open>
  C10. With the user signed in, a sheet linked and the request answered, the import
  returns whatever the rows are: it never fails on a row. The per-row results line up
  with the rows. A row without a ticker or without an entry date yields no trade and a
  warning that carries its sheet row number; a row with at least four cells, a ticker and
  an entry date yields a trade. For every payload the ledger after the import is exactly
  the list of the trades of the valid rows, in row order, whatever the ledger was before:
  a trade is in it if and only if it was built from a valid row. So three rows of which
  one is malformed give a ledger of two trades, the ones built from the two valid rows.
  Only a fetch that throws leaves the ledger as it was.
\<close>

theorem import_skips_malformed_rows:
  "(sid \<noteq> '''' \<longrightarrow>
      fetchTradesFromSheet pf now True (Some sid) (Inr (Some rows))
        = Inr (rights (rowResults pf now 0 rows), lefts (rowResults pf now 0 rows))
      \<and> importFromSheets
            (fetchTradesFromSheet pf now True (Some sid) (Inr (Some rows))) prev
          = rights (rowResults pf now 0 rows))
   \<and> importFromSheets (Inr (ts, ws)) prev = ts
   \<and> importFromSheets (Inl e) prev = prev
   \<and> length (rowResults pf now 0 rows) = length rows
   \<and> (\<forall>i < length rows. rowResults pf now 0 rows ! i = parseRow pf now i (rows ! i))
   \<and> (\<forall>i < length rows. cell (rows ! i) 1 = '''' \<or> cell (rows ! i) 2 = '''' \<longrightarrow>
         (\<forall>t. rowResults pf now 0 rows ! i \<noteq> Inr t)
         \<and> (MalformedRow (i + 2) \<in> set (lefts (rowResults pf now 0 rows))
            \<or> MissingEssentialData (i + 2) \<in> set (lefts (rowResults pf now 0 rows))))
   \<and> (\<forall>i < length rows. validRow (rows ! i) \<longrightarrow>
         (\<exists>t. rowResults pf now 0 rows ! i = Inr t
              \<and> t \<in> set (rights (rowResults pf now 0 rows))
              \<and> ticker t = cell (rows ! i) 1 \<and> entryDate t = cell (rows ! i) 2))
   \<and> (\<forall>t. t \<in> set (rights (rowResults pf now 0 rows))
         \<longleftrightarrow> (\<exists>i < length rows. validRow (rows ! i) \<and> parseRow pf now i (rows ! i) = Inr t))
   \<and> length (rights (rowResults pf now 0 rows)) = length (filter validRow rows)
   \<and> (sid \<noteq> '''' \<and> length rows = 3 \<and> length (filter validRow rows) = 2 \<longrightarrow>
         length (importFromSheets
                   (fetchTradesFromSheet pf now True (Some sid) (Inr (Some rows))) prev) = 2
         \<and> (\<forall>i < 3. validRow (rows ! i) \<longrightarrow>
               (\<exists>t. parseRow pf now i (rows ! i) = Inr t
                  \<and> t \<in> set (importFromSheets
                       (fetchTradesFromSheet pf now True (Some sid) (Inr (Some rows))) prev))))"
proof -
  let ?rs = "rowResults pf now 0 rows"
  let ?fetched = "fetchTradesFromSheet pf now True (Some sid) (Inr (Some rows))"
  have a: "?fetched = Inr (rights ?rs, lefts ?rs)" if "sid \<noteq> ''''"
    using that by (rule fetch_results)
  have a': "importFromSheets ?fetched prev = rights ?rs" if "sid \<noteq> ''''"
    using a [OF that] by (simp add: importFromSheets_def)
  have a1: "importFromSheets (Inr (ts, ws)) prev = ts" by (simp add: importFromSheets_def)
  have a2: "importFromSheets (Inl e) prev = prev" by (simp add: importFromSheets_def)
  have b: "length ?rs = length rows" by (rule rowResults_length)
  have b': "\<forall>i < length rows. ?rs ! i = parseRow pf now i (rows ! i)"
    by (simp add: rowResults_nth)
  have c: "(\<forall>t. ?rs ! i \<noteq> Inr t)
         \<and> (MalformedRow (i + 2) \<in> set (lefts ?rs)
            \<or> MissingEssentialData (i + 2) \<in> set (lefts ?rs))"
    if i: "i < length rows" and m: "cell (rows ! i) 1 = '''' \<or> cell (rows ! i) 2 = ''''" for i
  proof -
    from m have "\<not> validRow (rows ! i)" by (auto simp: validRow_def)
    from parseRow_invalid [OF this, of pf now i] i
    have r: "?rs ! i = Inl (if length (rows ! i) < 4 then MalformedRow (i + 2)
                            else MissingEssentialData (i + 2))"
      by (simp add: rowResults_nth)
    from i b have "?rs ! i \<in> set ?rs" by simp
    with r have "(if length (rows ! i) < 4 then MalformedRow (i + 2)
                  else MissingEssentialData (i + 2)) \<in> set (lefts ?rs)"
      by (simp add: lefts_member)
    with r show ?thesis by (auto split: if_splits)
  qed
  have d: "\<exists>t. ?rs ! i = Inr t \<and> t \<in> set (rights ?rs)
              \<and> ticker t = cell (rows ! i) 1 \<and> entryDate t = cell (rows ! i) 2"
    if i: "i < length rows" and v: "validRow (rows ! i)" for i
  proof -
    from parseRow_valid [OF v, of pf now i] obtain t where
      t: "parseRow pf now i (rows ! i) = Inr t" "ticker t = cell (rows ! i) 1"
         "entryDate t = cell (rows ! i) 2"
      by blast
    from i t(1) have r: "?rs ! i = Inr t" by (simp add: rowResults_nth)
    from i b have "?rs ! i \<in> set ?rs" by simp
    with r have "t \<in> set (rights ?rs)" by (simp add: rights_member)
    with r t show ?thesis by blast
  qed
  have m: "\<forall>t. t \<in> set (rights ?rs)
         \<longleftrightarrow> (\<exists>i < length rows. validRow (rows ! i) \<and> parseRow pf now i (rows ! i) = Inr t)"
    by (simp add: rights_rowResults_iff)
  have e: "length (rights ?rs) = length (filter validRow rows)"
    by (rule rights_rowResults_length)
  have f: "length (importFromSheets ?fetched prev) = 2
         \<and> (\<forall>i < 3. validRow (rows ! i) \<longrightarrow>
               (\<exists>t. parseRow pf now i (rows ! i) = Inr t
                  \<and> t \<in> set (importFromSheets ?fetched prev)))"
    if h: "sid \<noteq> '''' \<and> length rows = 3 \<and> length (filter validRow rows) = 2"
  proof -
    from h have eq: "importFromSheets ?fetched prev = rights ?rs" by (simp add: a')
    have "\<exists>t. parseRow pf now i (rows ! i) = Inr t \<and> t \<in> set (rights ?rs)"
      if "i < 3" "validRow (rows ! i)" for i
    proof -
      from that h have "i < length rows" by simp
      from d [OF this that(2)] b' \<open>i < length rows\<close> show ?thesis by auto
    qed
    with h e show ?thesis unfolding eq by simp
  qed
  from a a' a1 a2 b b' c d m e f show ?thesis by blast
qed

theorem import_skips_malformed_rows_witness:
  "''sheet-1'' \<noteq> ''''
   \<and> length sample_rows = 3 \<and> length (filter validRow sample_rows) = 2
   \<and> 1 < length sample_rows \<and> cell (sample_rows ! 1) 1 = ''''
   \<and> MissingEssentialData 3 \<in> set (lefts (rowResults sample_parseFloat 17 0 sample_rows))
   \<and> validRow (sample_rows ! 0) \<and> validRow (sample_rows ! 2)
   \<and> rowResults sample_parseFloat 17 0 sample_rows ! 0 = Inr sample_imported
   \<and> parseRow sample_parseFloat 17 2 (sample_rows ! 2) = Inr sample_imported_open
   \<and> length (importFromSheets
         (fetchTradesFromSheet sample_parseFloat 17 True (Some ''sheet-1'')
            (Inr (Some sample_rows))) [sample_open]) = 2
   \<and> importFromSheets
         (fetchTradesFromSheet sample_parseFloat 17 True (Some ''sheet-1'')
            (Inr (Some sample_rows))) [sample_open]
       = [sample_imported, sample_imported_open]"
proof -
  note inst = import_skips_malformed_rows [of "''sheet-1''" sample_parseFloat 17 sample_rows
      "[sample_open]"]
  let ?rs = "rowResults sample_parseFloat 17 0 sample_rows"
  let ?ledger = "importFromSheets
         (fetchTradesFromSheet sample_parseFloat 17 True (Some ''sheet-1'')
            (Inr (Some sample_rows))) [sample_open]"
  have h0: "''sheet-1'' \<noteq> ''''" by simp
  have h1: "length sample_rows = 3 \<and> length (filter validRow sample_rows) = 2"
    by (simp add: sample_rows_def validRow_def cell_def)
  have h2: "1 < length sample_rows" "cell (sample_rows ! 1) 1 = ''''"
    by (simp_all add: sample_rows_def cell_def)
  have h3: "0 < length sample_rows" "validRow (sample_rows ! 0)"
    by (simp_all add: sample_rows_def validRow_def cell_def)
  have h4: "2 < length sample_rows" "validRow (sample_rows ! 2)"
    by (simp_all add: sample_rows_def validRow_def cell_def)
  from inst h0 have eq: "fetchTradesFromSheet sample_parseFloat 17 True (Some ''sheet-1'')
      (Inr (Some sample_rows)) = Inr (rights ?rs, lefts ?rs)"
    and led: "?ledger = rights ?rs"
    by blast+
  from eq sample_rows_fetched have rl: "rights ?rs = [sample_imported, sample_imported_open]"
      "lefts ?rs = [MissingEssentialData 3]"
    by simp_all
  from inst h2 have "MalformedRow (1 + 2) \<in> set (lefts ?rs)
      \<or> MissingEssentialData (1 + 2) \<in> set (lefts ?rs)"
    by blast
  with rl have r1: "MissingEssentialData 3 \<in> set (lefts ?rs)" by simp
  from inst h3 obtain t where t: "?rs ! 0 = Inr t" "t \<in> set (rights ?rs)"
      "ticker t = cell (sample_rows ! 0) 1"
    by blast
  have "ticker sample_imported_open \<noteq> cell (sample_rows ! 0) 1"
    by (simp add: sample_imported_open_def sample_rows_def cell_def)
  with t rl have "t = sample_imported" by auto
  with t have r2: "?rs ! 0 = Inr sample_imported" by simp
  from inst h0 h1 have r0: "length ?ledger = 2"
    and all: "\<forall>i < 3. validRow (sample_rows ! i) \<longrightarrow>
               (\<exists>t. parseRow sample_parseFloat 17 i (sample_rows ! i) = Inr t \<and> t \<in> set ?ledger)"
    by blast+
  have "(2::nat) < 3" by simp
  with all h4(2) obtain u where u: "parseRow sample_parseFloat 17 2 (sample_rows ! 2) = Inr u"
      "u \<in> set ?ledger" by blast
  have "ticker u = cell (sample_rows ! 2) 1"
    using u(1) parseRow_valid [OF h4(2), of sample_parseFloat 17 2] by auto
  moreover have "ticker sample_imported \<noteq> cell (sample_rows ! 2) 1"
    by (simp add: sample_imported_def sample_rows_def cell_def)
  ultimately have "u = sample_imported_open" using u(2) led rl by auto
  with u have r4: "parseRow sample_parseFloat 17 2 (sample_rows ! 2) = Inr sample_imported_open"
    by simp
  from led rl have r3: "?ledger = [sample_imported, sample_imported_open]" by simp
  from h0 h1 h2 h3 h4 r0 r1 r2 r3 r4 show ?thesis by blast
qed

end
